theory Spec2Isabelle
  imports Main
begin

section \<open>Errors of the await and retry packages\<close>

text \<open>
  A Go value of type \<open>error\<close> is an \<open>error option\<close>: \<open>None\<close> is \<open>nil\<close>.
  The constructors are the sentinels of package context (\<open>Canceled\<close>,
  \<open>DeadlineExceeded\<close>), the sentinels of errors.go and of the retry package, a leaf
  error made by \<open>errors.New\<close> (identified by its text), and the three struct errors
  \<open>PermanentError{Err}\<close>, \<open>RetryError{LastError, Attempts}\<close> and
  \<open>AggregateError{Errors}\<close>.
\<close>

datatype error =
    Canceled
  | DeadlineExceeded
  | ErrNoTasks
  | ErrMaxAttemptsInvalid
  | ErrPermanent
  | New string
  | PermanentError "error option"
  | RetryError "error option" int
  | AggregateError "error option list"

text \<open>
  The loop of \<open>errors.Is\<close>: the error is the target, or its own \<open>Is\<close> method accepts
  the target (only \<open>PermanentError\<close> has one: \<open>target == ErrPermanent\<close>), or the
  search goes on in what \<open>Unwrap\<close> returns (one error for \<open>PermanentError\<close> and
  \<open>RetryError\<close>, a slice for \<open>AggregateError\<close>).
  Go compares the error and the target by identity; the model compares them by structure.
  The two agree when the target is a sentinel, which has a constructor of its own, and
  \<open>ErrPermanent\<close> is the only target used below. For two errors made by separate calls
  of \<open>errors.New\<close> with one text they do not agree.
\<close>

fun is_chain :: "error option \<Rightarrow> error \<Rightarrow> bool" where
  "is_chain None target = False"
| "is_chain (Some err) target =
     (err = target \<or>
      (case err of PermanentError _ \<Rightarrow> target = ErrPermanent | _ \<Rightarrow> False) \<or>
      (case err of
         PermanentError x \<Rightarrow> is_chain x target
       | RetryError x _ \<Rightarrow> is_chain x target
       | AggregateError xs \<Rightarrow> (\<exists>x \<in> set xs. is_chain x target)
       | _ \<Rightarrow> False))"

definition errors_Is :: "error option \<Rightarrow> error option \<Rightarrow> bool" where
  "errors_Is err target =
     (case target of
        None \<Rightarrow> err = None
      | Some t \<Rightarrow> (case err of None \<Rightarrow> False | Some _ \<Rightarrow> is_chain err t))"

definition Permanent :: "error option \<Rightarrow> error option" where
  "Permanent err = (case err of None \<Rightarrow> None | Some e \<Rightarrow> Some (PermanentError (Some e)))"

definition IsPermanentError :: "error option \<Rightarrow> bool" where
  "IsPermanentError err = errors_Is err (Some ErrPermanent)"

fun Unwrap :: "error \<Rightarrow> error option" where
  "Unwrap (PermanentError x) = x"
| "Unwrap (RetryError x _) = x"
| "Unwrap _ = None"

text \<open>
  The permanent marker as the data model describes it: an error carries the marker when
  it is the sentinel, when it is a \<open>PermanentError\<close> wrapper, or when an error it wraps
  carries the marker.
\<close>

inductive marked_permanent :: "error \<Rightarrow> bool" where
  sentinel: "marked_permanent ErrPermanent"
| wrapper: "marked_permanent (PermanentError x)"
| in_retry: "marked_permanent e \<Longrightarrow> marked_permanent (RetryError (Some e) n)"
| in_aggregate: "Some e \<in> set xs \<Longrightarrow> marked_permanent e \<Longrightarrow> marked_permanent (AggregateError xs)"

code_pred marked_permanent .

section \<open>float64, as far as ExponentialBackoff uses it\<close>

text \<open>
  \<open>Finite m e\<close> is the number \<open>m * 2 ^ e\<close>. A float64 has 53 bits of mantissa and its
  least exponent is -1074; \<open>f64_round\<close> rounds to nearest, ties to even, and overflows
  to an infinity from \<open>2 ^ 1024\<close> on. The sign of a zero is not kept: the code only
  converts the product back to an integer.
\<close>

datatype float64 = Finite int int | PInf | NInf | NaN

function bit_length :: "int \<Rightarrow> int" where
  "bit_length a = (if a \<le> 0 then 0 else 1 + bit_length (a div 2))"
  by pat_completeness auto
termination
  by (relation "measure nat") auto

declare bit_length.simps [simp del]

definition round_half_even :: "int \<Rightarrow> nat \<Rightarrow> int" where
  "round_half_even a s =
     (if s = 0 then a
      else let q = a div 2 ^ s; r = a mod 2 ^ s; h = 2 ^ (s - 1)
           in if h < r \<or> (r = h \<and> odd q) then q + 1 else q)"

definition f64_round :: "int \<Rightarrow> int \<Rightarrow> float64" where
  "f64_round m e =
     (let a = \<bar>m\<bar>;
          s = nat (max (bit_length a - 53) (- 1074 - e));
          q = round_half_even a s;
          e' = e + int s
      in if q = 0 then Finite 0 0
         else if 1024 < bit_length q + e' then (if 0 < m then PInf else NInf)
         else Finite (sgn m * q) e')"

definition f64_of_int64 :: "int \<Rightarrow> float64" where
  "f64_of_int64 i = f64_round i 0"

fun f64_mul :: "float64 \<Rightarrow> float64 \<Rightarrow> float64" where
  "f64_mul NaN _ = NaN"
| "f64_mul _ NaN = NaN"
| "f64_mul (Finite m1 e1) (Finite m2 e2) = f64_round (m1 * m2) (e1 + e2)"
| "f64_mul (Finite m e) PInf = (if m = 0 then NaN else if 0 < m then PInf else NInf)"
| "f64_mul (Finite m e) NInf = (if m = 0 then NaN else if 0 < m then NInf else PInf)"
| "f64_mul PInf (Finite m e) = (if m = 0 then NaN else if 0 < m then PInf else NInf)"
| "f64_mul NInf (Finite m e) = (if m = 0 then NaN else if 0 < m then NInf else PInf)"
| "f64_mul PInf PInf = PInf"
| "f64_mul NInf NInf = PInf"
| "f64_mul PInf NInf = NInf"
| "f64_mul NInf PInf = NInf"

text \<open>
  The conversion float64 to int64 truncates towards zero. For a value outside int64 the
  language leaves the result to the implementation; this is what amd64 returns.
\<close>

definition int64_of_f64 :: "float64 \<Rightarrow> int" where
  "int64_of_f64 x =
     (case x of
        Finite m e \<Rightarrow>
          (let t = (if 0 \<le> e then m * 2 ^ nat e else sgn m * (\<bar>m\<bar> div 2 ^ nat (- e)))
           in if - (2 ^ 63) \<le> t \<and> t < 2 ^ 63 then t else - (2 ^ 63))
      | _ \<Rightarrow> - (2 ^ 63))"

definition wrap64 :: "int \<Rightarrow> int" where
  "wrap64 x = (x + 2 ^ 63) mod 2 ^ 64 - 2 ^ 63"

section \<open>Backoff strategies\<close>

text \<open>
  A \<open>time.Duration\<close> is a number of nanoseconds, an \<open>int\<close> here; the sum and the
  product of LinearBackoff wrap around as int64 does (\<open>wrap64\<close>). An attempt number is an
  \<open>int\<close> as well: the loops count up to a given \<open>int\<close> and never past it. The interface
  \<open>Strategy\<close> is the datatype of its five implementations; a \<open>nil\<close> function field of
  \<open>CustomStrategy\<close> is \<open>None\<close>.
\<close>

datatype Strategy =
    ExponentialBackoff (InitialDelay: int) (Multiplier: float64) (MaxDelay: int)
  | LinearBackoff (InitialDelay: int) (Increment: int)
  | ConstantDelay (Delay: int)
  | NoDelay
  | CustomStrategy (DelayFunc: "(int \<Rightarrow> int) option")
      (ShouldRetryFunc: "(int \<Rightarrow> error option \<Rightarrow> bool) option")

definition scale :: "float64 \<Rightarrow> int \<Rightarrow> int" where
  "scale multiplier delay = int64_of_f64 (f64_mul (f64_of_int64 delay) multiplier)"

function exp_loop :: "float64 \<Rightarrow> int \<Rightarrow> int \<Rightarrow> int \<Rightarrow> int \<Rightarrow> int" where
  "exp_loop multiplier maxDelay attempt i delay =
     (if i < attempt
      then (let delay' = scale multiplier delay
            in if 0 < maxDelay \<and> maxDelay < delay' then maxDelay
               else exp_loop multiplier maxDelay attempt (i + 1) delay')
      else delay)"
  by pat_completeness auto
termination
  by (relation "measure (\<lambda>(multiplier, maxDelay, attempt, i, delay). nat (attempt - i))") auto

declare exp_loop.simps [simp del]

fun NextDelay :: "Strategy \<Rightarrow> int \<Rightarrow> int" where
  "NextDelay (ExponentialBackoff initialDelay multiplier maxDelay) attempt =
     (if attempt \<le> 0 then 0 else exp_loop multiplier maxDelay attempt 1 initialDelay)"
| "NextDelay (LinearBackoff initialDelay increment) attempt =
     (if attempt \<le> 0 then 0 else wrap64 (initialDelay + wrap64 ((attempt - 1) * increment)))"
| "NextDelay (ConstantDelay delay) attempt = (if attempt \<le> 0 then 0 else delay)"
| "NextDelay NoDelay attempt = 0"
| "NextDelay (CustomStrategy delayFunc shouldRetryFunc) attempt =
     (case delayFunc of None \<Rightarrow> 0 | Some f \<Rightarrow> f attempt)"

fun ShouldRetry :: "Strategy \<Rightarrow> int \<Rightarrow> error option \<Rightarrow> bool" where
  "ShouldRetry (ExponentialBackoff initialDelay multiplier maxDelay) attempt err =
     (\<not> IsPermanentError err)"
| "ShouldRetry (LinearBackoff initialDelay increment) attempt err = (\<not> IsPermanentError err)"
| "ShouldRetry (ConstantDelay delay) attempt err = (\<not> IsPermanentError err)"
| "ShouldRetry NoDelay attempt err = (\<not> IsPermanentError err)"
| "ShouldRetry (CustomStrategy delayFunc shouldRetryFunc) attempt err =
     (case shouldRetryFunc of None \<Rightarrow> True | Some f \<Rightarrow> f attempt err)"

fun builtin :: "Strategy \<Rightarrow> bool" where
  "builtin (CustomStrategy delayFunc shouldRetryFunc) = False"
| "builtin _ = True"


section \<open>The retry engine\<close>

text \<open>
  The state of the program at one moment is a \<open>World\<close>: \<open>ctx_Err\<close> is what
  \<open>ctx.Err()\<close> returns then (\<open>None\<close> while the scope is not cancelled), and the rest of
  the record (its extension) is whatever else the task, the callback and the clock can
  see or change. The retried function and \<open>OnRetry\<close> are state transformers. The two
  predicates \<open>RetryIf\<close> and \<open>ShouldRetryFunc\<close> and \<open>DelayFunc\<close> are taken as pure.
\<close>

record World =
  ctx_Err :: "error option"

record 'm Options =
  Strategy :: Strategy
  MaxAttempts :: int
  OnRetry :: "(int \<Rightarrow> error option \<Rightarrow> 'm World_scheme \<Rightarrow> 'm World_scheme) option"
  RetryIf :: "(error option \<Rightarrow> bool) option"

text \<open>
  The \<open>select\<close> of \<open>waitForRetry\<close> blocks until the scope is done or the timer fires; which
  of the two wakes it, and the world at that moment, is the environment's: a function
  \<open>sleep\<close> from the delay and the world before the wait.
\<close>

datatype wake = CtxDone | TimerFired

text \<open>What \<open>Do\<close> did, in order: the calls of the function, of \<open>OnRetry\<close> and the waits.\<close>

datatype event =
    Invoked int "error option"
  | Retried int "error option"
  | Waited int int

definition shouldRetryError :: "'m Options \<Rightarrow> error option \<Rightarrow> bool" where
  "shouldRetryError opts err = (case RetryIf opts of None \<Rightarrow> True | Some p \<Rightarrow> p err)"

definition isLastAttempt :: "int \<Rightarrow> int \<Rightarrow> bool" where
  "isLastAttempt attempt maxAttempts = (maxAttempts \<le> attempt)"

definition calculateDelay :: "'m Options \<Rightarrow> int \<Rightarrow> int" where
  "calculateDelay opts attempt = NextDelay (Strategy opts) attempt"

definition waitForRetry ::
  "(int \<Rightarrow> 'm World_scheme \<Rightarrow> wake \<times> 'm World_scheme) \<Rightarrow> int \<Rightarrow> 'm World_scheme
     \<Rightarrow> error option \<times> 'm World_scheme" where
  "waitForRetry sleep delay w =
     (case sleep delay w of
        (CtxDone, w') \<Rightarrow> (ctx_Err w', w')
      | (TimerFired, w') \<Rightarrow> (None, w'))"

definition callOnRetry :: "'m Options \<Rightarrow> int \<Rightarrow> error option \<Rightarrow> 'm World_scheme \<Rightarrow> 'm World_scheme" where
  "callOnRetry opts attempt err w = (case OnRetry opts of None \<Rightarrow> w | Some f \<Rightarrow> f attempt err w)"

definition onRetryEvents :: "'m Options \<Rightarrow> int \<Rightarrow> error option \<Rightarrow> event list" where
  "onRetryEvents opts attempt err = (case OnRetry opts of None \<Rightarrow> [] | Some f \<Rightarrow> [Retried attempt err])"

text \<open>
  The \<open>for\<close> loop of \<open>Do\<close>, from the test \<open>attempt <= opts.MaxAttempts\<close> on. It returns
  the pair \<open>(T, error)\<close> of \<open>Do\<close> and the events so far. The loop is left by \<open>break\<close> on
  the last attempt; the return after the loop builds the \<open>RetryError\<close>.
\<close>

function do_loop ::
  "'a \<Rightarrow> (int \<Rightarrow> 'm World_scheme \<Rightarrow> wake \<times> 'm World_scheme)
     \<Rightarrow> ('m World_scheme \<Rightarrow> ('a \<times> error option) \<times> 'm World_scheme)
     \<Rightarrow> 'm Options \<Rightarrow> int \<Rightarrow> error option \<Rightarrow> 'm World_scheme \<Rightarrow> event list
     \<Rightarrow> ('a \<times> error option) \<times> event list" where
  "do_loop zero sleep fn opts attempt lastErr w tr =
     (if attempt \<le> MaxAttempts opts then
        (case ctx_Err w of
           Some err \<Rightarrow> ((zero, Some err), tr)
         | None \<Rightarrow>
            (case fn w of
               ((result, None), w1) \<Rightarrow> ((result, None), tr @ [Invoked attempt None])
             | ((result, Some err), w1) \<Rightarrow>
                (if \<not> shouldRetryError opts (Some err)
                 then ((zero, Some err), tr @ [Invoked attempt (Some err)])
                 else if \<not> ShouldRetry (Strategy opts) attempt (Some err)
                 then ((zero, Some err), tr @ [Invoked attempt (Some err)])
                 else if isLastAttempt attempt (MaxAttempts opts)
                 then ((zero, Some (RetryError (Some err) (MaxAttempts opts))),
                       tr @ [Invoked attempt (Some err)])
                 else
                   (case waitForRetry sleep (calculateDelay opts attempt)
                           (callOnRetry opts attempt (Some err) w1) of
                      (Some err', w3) \<Rightarrow>
                        ((zero, Some err'),
                         tr @ [Invoked attempt (Some err)] @ onRetryEvents opts attempt (Some err)
                            @ [Waited attempt (calculateDelay opts attempt)])
                    | (None, w3) \<Rightarrow>
                        do_loop zero sleep fn opts (attempt + 1) (Some err) w3
                          (tr @ [Invoked attempt (Some err)] @ onRetryEvents opts attempt (Some err)
                              @ [Waited attempt (calculateDelay opts attempt)])))))
      else ((zero, Some (RetryError lastErr (MaxAttempts opts))), tr))"
  by pat_completeness auto
termination
  by (relation "measure (\<lambda>(zero, sleep, fn, opts, attempt, lastErr, w, tr).
        nat (MaxAttempts opts - attempt))")
     (auto simp: isLastAttempt_def)

declare do_loop.simps [simp del]

definition Do ::
  "'a \<Rightarrow> (int \<Rightarrow> 'm World_scheme \<Rightarrow> wake \<times> 'm World_scheme) \<Rightarrow> 'm World_scheme
     \<Rightarrow> ('m World_scheme \<Rightarrow> ('a \<times> error option) \<times> 'm World_scheme)
     \<Rightarrow> 'm Options \<Rightarrow> ('a \<times> error option) \<times> event list" where
  "Do zero sleep ctx fn opts =
     (if MaxAttempts opts \<le> 0 then ((zero, Some ErrMaxAttemptsInvalid), [])
      else do_loop zero sleep fn opts 1 None ctx [])"

fun attempt_of :: "event \<Rightarrow> int" where
  "attempt_of (Invoked attempt err) = attempt"
| "attempt_of (Retried attempt err) = attempt"
| "attempt_of (Waited attempt delay) = attempt"

fun invocations :: "event list \<Rightarrow> int list" where
  "invocations [] = []"
| "invocations (Invoked attempt err # tr) = attempt # invocations tr"
| "invocations (ev # tr) = invocations tr"

text \<open>
  The run of \<open>Do\<close> when every attempt fails and is retried, told from the retried
  function alone: \<open>world_before sleep fn opts ctx k\<close> is the world in which call number
  \<open>k + 1\<close> of \<open>fn\<close> is made (the scope's world for the first call, then the world
  that the previous call, \<open>OnRetry\<close> and the wait leave behind); \<open>error_of_call\<close> is
  the error that call returns; \<open>events_of_attempt\<close> are the three things a retried
  attempt does.
\<close>

fun world_before ::
  "(int \<Rightarrow> 'm World_scheme \<Rightarrow> wake \<times> 'm World_scheme)
     \<Rightarrow> ('m World_scheme \<Rightarrow> ('a \<times> error option) \<times> 'm World_scheme)
     \<Rightarrow> 'm Options \<Rightarrow> 'm World_scheme \<Rightarrow> nat \<Rightarrow> 'm World_scheme" where
  "world_before sleep fn opts ctx 0 = ctx"
| "world_before sleep fn opts ctx (Suc k) =
     (case fn (world_before sleep fn opts ctx k) of
        ((result, err), w1) \<Rightarrow>
          snd (sleep (calculateDelay opts (int k + 1)) (callOnRetry opts (int k + 1) err w1)))"

definition error_of_call ::
  "(int \<Rightarrow> 'm World_scheme \<Rightarrow> wake \<times> 'm World_scheme)
     \<Rightarrow> ('m World_scheme \<Rightarrow> ('a \<times> error option) \<times> 'm World_scheme)
     \<Rightarrow> 'm Options \<Rightarrow> 'm World_scheme \<Rightarrow> nat \<Rightarrow> error option" where
  "error_of_call sleep fn opts ctx k = snd (fst (fn (world_before sleep fn opts ctx k)))"

definition events_of_attempt :: "'m Options \<Rightarrow> int \<Rightarrow> error option \<Rightarrow> event list" where
  "events_of_attempt opts attempt err =
     [Invoked attempt err] @ onRetryEvents opts attempt err
       @ [Waited attempt (calculateDelay opts attempt)]"

section \<open>The join combinators\<close>

text \<open>
  Every task runs in a goroutine of its own. What the goroutine of task \<open>idx\<close> sees when
  it runs, the scope included, is the world \<open>views idx\<close>, given by the environment; no
  order of the goroutines is assumed. A task is a function of that world.
\<close>

record 'a Result =
  Value :: 'a
  Err :: "error option"

definition All_go :: "'a \<Rightarrow> ('m World_scheme \<Rightarrow> 'a \<times> error option) \<Rightarrow> 'm World_scheme \<Rightarrow> 'a Result" where
  "All_go zero task view =
     (case ctx_Err view of
        Some err \<Rightarrow> \<lparr>Value = zero, Err = Some err\<rparr>
      | None \<Rightarrow> (case task view of (val, err) \<Rightarrow> \<lparr>Value = val, Err = err\<rparr>))"

text \<open>
  await.go holds two definitions of \<open>All\<close>. This is the second, the settle-style join
  that returns \<open>([]Result[T], error)\<close>: it tests its two preconditions, starts the
  goroutines and waits for all of them. The first component is the slice of results,
  \<open>None\<close> for the \<open>nil\<close> slice.
\<close>

definition All_join ::
  "'a \<Rightarrow> 'm World_scheme \<Rightarrow> (nat \<Rightarrow> 'm World_scheme) \<Rightarrow> ('m World_scheme \<Rightarrow> 'a \<times> error option) list
     \<Rightarrow> 'a Result list option \<times> error option" where
  "All_join zero ctx views tasks =
     (if length tasks = 0 then (None, Some ErrNoTasks)
      else case ctx_Err ctx of
        Some err \<Rightarrow> (None, Some err)
      | None \<Rightarrow> (Some (map (\<lambda>idx. All_go zero (tasks ! idx) (views idx)) [0..<length tasks]), None))"

text \<open>
  \<open>AllSettled\<close>, defined beside the first \<open>All\<close>: the same goroutines, no error of its
  own.
\<close>

definition AllSettled ::
  "'a \<Rightarrow> (nat \<Rightarrow> 'm World_scheme) \<Rightarrow> ('m World_scheme \<Rightarrow> 'a \<times> error option) list \<Rightarrow> 'a Result list" where
  "AllSettled zero views tasks =
     (if length tasks = 0 then []
      else map (\<lambda>idx. All_go zero (tasks ! idx) (views idx)) [0..<length tasks])"

text \<open>
  The first definition of \<open>All\<close> in await.go, the strict join that returns
  \<open>([]T, error)\<close>: the values and, when a task failed, an \<open>AggregateError\<close> of the
  failures in input order.
\<close>

definition All_strict_go :: "'a \<Rightarrow> ('m World_scheme \<Rightarrow> 'a \<times> error option) \<Rightarrow> 'm World_scheme \<Rightarrow> 'a \<times> error option" where
  "All_strict_go zero task view =
     (case ctx_Err view of Some err \<Rightarrow> (zero, Some err) | None \<Rightarrow> task view)"

definition All_strict ::
  "'a \<Rightarrow> (nat \<Rightarrow> 'm World_scheme) \<Rightarrow> ('m World_scheme \<Rightarrow> 'a \<times> error option) list
     \<Rightarrow> 'a list \<times> error option" where
  "All_strict zero views tasks =
     (if length tasks = 0 then ([], None)
      else let outs = map (\<lambda>idx. All_strict_go zero (tasks ! idx) (views idx)) [0..<length tasks];
               errors = filter (\<lambda>err. err \<noteq> None) (map snd outs)
           in if 0 < length errors then (map fst outs, Some (AggregateError errors))
              else (map fst outs, None))"

text \<open>
  \<open>Any\<close>: every goroutine sends one \<open>result{val, err}\<close> into a channel with room for all
  of them; \<open>order\<close> lists the tasks in the order their results arrive. The receiving loop
  returns at the first result without error and collects the errors until then. The
  scope the goroutines see is the one \<open>Any\<close> derives with \<open>context.WithCancel\<close>; it
  cancels that scope only when it returns.
\<close>

definition Any_go :: "'a \<Rightarrow> ('m World_scheme \<Rightarrow> 'a \<times> error option) \<Rightarrow> 'm World_scheme \<Rightarrow> 'a \<times> error option" where
  "Any_go zero task view =
     (case ctx_Err view of Some err \<Rightarrow> (zero, Some err) | None \<Rightarrow> task view)"

fun Any_recv :: "'a \<Rightarrow> ('a \<times> error option) list \<Rightarrow> error option list \<Rightarrow> 'a \<times> error option" where
  "Any_recv zero [] errors = (zero, Some (AggregateError errors))"
| "Any_recv zero ((val, None) # ch) errors = (val, None)"
| "Any_recv zero ((val, Some err) # ch) errors = Any_recv zero ch (errors @ [Some err])"

definition Any ::
  "'a \<Rightarrow> (nat \<Rightarrow> 'm World_scheme) \<Rightarrow> nat list \<Rightarrow> ('m World_scheme \<Rightarrow> 'a \<times> error option) list
     \<Rightarrow> 'a \<times> error option" where
  "Any zero views order tasks =
     (if length tasks = 0 then (zero, Some ErrNoTasks)
      else Any_recv zero (map (\<lambda>idx. Any_go zero (tasks ! idx) (views idx)) order) [])"

section \<open>Inputs taken from the tests\<close>

text \<open>
  \<open>context.Background()\<close> and a scope cancelled before the call; tasks that return a
  value or fail with \<open>errors.New\<close>; a retried function that always fails, one that
  fails with \<open>Permanent(errors.New(msg))\<close>; a wait that ends with the timer unless the
  scope is done already, and one during which the scope is cancelled.
\<close>

definition background :: World where
  "background = \<lparr>ctx_Err = None\<rparr>"

definition cancelled :: World where
  "cancelled = \<lparr>ctx_Err = Some Canceled\<rparr>"

definition undisturbed :: "nat \<Rightarrow> World" where
  "undisturbed idx = background"

definition succeeds :: "'a \<Rightarrow> World \<Rightarrow> 'a \<times> error option" where
  "succeeds v w = (v, None)"

definition fails :: "'a \<Rightarrow> string \<Rightarrow> World \<Rightarrow> 'a \<times> error option" where
  "fails v msg w = (v, Some (New msg))"

definition always_fails :: "string \<Rightarrow> World \<Rightarrow> (int \<times> error option) \<times> World" where
  "always_fails msg w = ((0, Some (New msg)), w)"

definition fails_permanently :: "string \<Rightarrow> World \<Rightarrow> (int \<times> error option) \<times> World" where
  "fails_permanently msg w = ((0, Permanent (Some (New msg))), w)"

definition timer_sleep :: "int \<Rightarrow> 'm World_scheme \<Rightarrow> wake \<times> 'm World_scheme" where
  "timer_sleep delay w = (if ctx_Err w = None then (TimerFired, w) else (CtxDone, w))"

definition cancelling_sleep :: "int \<Rightarrow> World \<Rightarrow> wake \<times> World" where
  "cancelling_sleep delay w = (CtxDone, w\<lparr>ctx_Err := Some Canceled\<rparr>)"

definition options :: "Strategy \<Rightarrow> int \<Rightarrow> unit Options" where
  "options strategy maxAttempts =
     \<lparr>Strategy = strategy, MaxAttempts = maxAttempts, OnRetry = None, RetryIf = None\<rparr>"

text \<open>
  The retried functions of \<open>TestDo\<close> count their calls in a variable they close over:
  the field \<open>attempts\<close> of the world. The second one calls \<open>cancel()\<close> in its second
  call.
\<close>

record Counting = World +
  attempts :: nat

definition counting :: Counting where
  "counting = \<lparr>ctx_Err = None, attempts = 0\<rparr>"

definition retry_until_success :: "Counting \<Rightarrow> (string \<times> error option) \<times> Counting" where
  "retry_until_success w =
     (let w' = w\<lparr>attempts := attempts w + 1\<rparr>
      in if attempts w' < 3 then (('''', Some (New ''temporary error'')), w')
         else ((''success'', None), w'))"

definition cancels_on_second :: "Counting \<Rightarrow> (int \<times> error option) \<times> Counting" where
  "cancels_on_second w =
     (let w' = w\<lparr>attempts := attempts w + 1\<rparr>;
          w'' = (if attempts w' = 2 then w'\<lparr>ctx_Err := Some Canceled\<rparr> else w')
      in ((0, Some (New ''error'')), w''))"

text \<open>
  A function that fails at every call with an error that spells the number of the call
  (as many \<open>x\<close> as calls so far), a callback that does nothing, and options with that
  callback.
\<close>

definition counts_and_fails :: "Counting \<Rightarrow> (int \<times> error option) \<times> Counting" where
  "counts_and_fails w =
     (let w' = w\<lparr>attempts := attempts w + 1\<rparr>
      in ((0, Some (New (replicate (attempts w') CHR ''x''))), w'))"

definition quiet_callback :: "int \<Rightarrow> error option \<Rightarrow> Counting \<Rightarrow> Counting" where
  "quiet_callback attempt err w = w"

definition counting_options :: "\<lparr>attempts :: nat\<rparr> Options" where
  "counting_options =
     \<lparr>Strategy = ConstantDelay 10000000, MaxAttempts = 3, OnRetry = Some quiet_callback,
      RetryIf = None\<rparr>"

section \<open>The tests of the repository on the model\<close>

lemmas retry_defs = Do_def do_loop.simps shouldRetryError_def isLastAttempt_def calculateDelay_def
  waitForRetry_def callOnRetry_def onRetryEvents_def IsPermanentError_def errors_Is_def

lemma test_Do_retry_until_success:
  "Do [] timer_sleep counting retry_until_success
      \<lparr>Strategy = ConstantDelay 10000000, MaxAttempts = 5, OnRetry = None, RetryIf = None\<rparr> =
     ((''success'', None),
      [Invoked 1 (Some (New ''temporary error'')), Waited 1 10000000,
       Invoked 2 (Some (New ''temporary error'')), Waited 2 10000000,
       Invoked 3 None])"
  by (simp add: retry_defs counting_def retry_until_success_def timer_sleep_def)

lemma test_Do_context_cancellation:
  "Do 0 timer_sleep counting cancels_on_second
      \<lparr>Strategy = ConstantDelay 100000000, MaxAttempts = 5, OnRetry = None, RetryIf = None\<rparr> =
     ((0, Some Canceled),
      [Invoked 1 (Some (New ''error'')), Waited 1 100000000,
       Invoked 2 (Some (New ''error'')), Waited 2 100000000])"
  by (simp add: retry_defs counting_def cancels_on_second_def timer_sleep_def)

lemma test_Do_retry_callback:
  "snd (Do 0 timer_sleep background (always_fails ''error'')
      \<lparr>Strategy = NoDelay, MaxAttempts = 3, OnRetry = Some (\<lambda>attempt err w. w), RetryIf = None\<rparr>) =
     [Invoked 1 (Some (New ''error'')), Retried 1 (Some (New ''error'')), Waited 1 0,
      Invoked 2 (Some (New ''error'')), Retried 2 (Some (New ''error'')), Waited 2 0,
      Invoked 3 (Some (New ''error''))]"
  by (simp add: retry_defs background_def always_fails_def timer_sleep_def)

lemma test_Do_invalid_max_attempts:
  "Do 0 timer_sleep background (\<lambda>w. ((42, None), w)) (options NoDelay 0) =
     ((0::int, Some ErrMaxAttemptsInvalid), [])"
  by (simp add: Do_def options_def)

lemma test_LinearBackoff:
  "map (NextDelay (LinearBackoff 100000000 50000000)) [1, 2, 3] = [100000000, 150000000, 200000000]"
  by (simp add: wrap64_def)

lemma test_CustomStrategy:
  "NextDelay (CustomStrategy (Some (\<lambda>attempt. attempt * 100000000)) (Some (\<lambda>attempt err. attempt < 3))) 2
     = 200000000
   \<and> ShouldRetry (CustomStrategy (Some (\<lambda>attempt. attempt * 100000000)) (Some (\<lambda>attempt err. attempt < 3)))
        2 (Some (New ''test''))
   \<and> \<not> ShouldRetry (CustomStrategy (Some (\<lambda>attempt. attempt * 100000000)) (Some (\<lambda>attempt err. attempt < 3)))
        3 (Some (New ''test''))"
  by simp

lemma test_PermanentError:
  "errors_Is (Permanent (Some (New ''base error''))) (Some ErrPermanent)
   \<and> IsPermanentError (Permanent (Some (New ''base error'')))
   \<and> \<not> IsPermanentError (Some (New ''base error''))
   \<and> Permanent None = None"
  by (simp add: Permanent_def IsPermanentError_def errors_Is_def)

lemma test_All_with_task_errors:
  "All_join 0 background undisturbed [fails 0 ''task failed'', succeeds 2] =
     (Some [\<lparr>Value = 0::int, Err = Some (New ''task failed'')\<rparr>, \<lparr>Value = 2, Err = None\<rparr>], None)"
  by (simp add: All_join_def All_go_def background_def undisturbed_def fails_def succeeds_def upt_rec)

lemma test_All_cancelled_before_execution:
  "All_join 0 cancelled undisturbed [succeeds (1::int)] = (None, Some Canceled)"
  by (simp add: All_join_def cancelled_def)

lemma test_All_strict_multiple_errors:
  "All_strict 0 undisturbed [fails 10 ''error 1'', fails 20 ''error 2'', succeeds 30] =
     ([10, 20, 30::int], Some (AggregateError [Some (New ''error 1''), Some (New ''error 2'')]))"
  by (simp add: All_strict_def All_strict_go_def background_def undisturbed_def fails_def
      succeeds_def upt_rec)

lemma test_Any_first_succeeds:
  "Any 0 undisturbed [0, 1] [succeeds 1, succeeds (2::int)] = (1, None)"
  by (simp add: Any_def Any_go_def background_def undisturbed_def succeeds_def)

lemma test_Any_success_after_failures:
  "Any 0 undisturbed [0, 2, 1] [fails 0 ''e1'', succeeds (2::int), fails 0 ''e3''] = (2, None)"
  by (simp add: Any_def Any_go_def background_def undisturbed_def succeeds_def fails_def)

section \<open>Permanent errors and the strategies' decision\<close>

lemma is_chain_imp_marked:
  "is_chain x t \<Longrightarrow> t = ErrPermanent \<Longrightarrow> \<exists>e. x = Some e \<and> marked_permanent e"
proof (induction x t rule: is_chain.induct)
  case (1 target)
  then show ?case by simp
next
  case (2 err target)
  show ?case
  proof (cases err)
    case (PermanentError x)
    then show ?thesis by (simp add: marked_permanent.wrapper)
  next
    case (RetryError x n)
    with 2 have "is_chain x ErrPermanent" by simp
    with 2 RetryError obtain e where "x = Some e" "marked_permanent e" by blast
    with RetryError show ?thesis by (auto intro: marked_permanent.in_retry)
  next
    case (AggregateError xs)
    with 2 obtain x where x: "x \<in> set xs" "is_chain x ErrPermanent" by auto
    with 2 AggregateError obtain e where "x = Some e" "marked_permanent e" by blast
    with x AggregateError show ?thesis by (auto intro: marked_permanent.in_aggregate)
  qed (use 2 in \<open>auto intro: marked_permanent.sentinel\<close>)
qed

lemma is_chain_sentinel: "is_chain (Some ErrPermanent) ErrPermanent"
  by simp

lemma is_chain_wrapper: "is_chain (Some (PermanentError x)) ErrPermanent"
  by simp

lemma is_chain_in_retry: "is_chain (Some e) t \<Longrightarrow> is_chain (Some (RetryError (Some e) n)) t"
  by simp

lemma is_chain_in_aggregate:
  "Some e \<in> set xs \<Longrightarrow> is_chain (Some e) t \<Longrightarrow> is_chain (Some (AggregateError xs)) t"
  by (subst is_chain.simps) (auto simp del: is_chain.simps)

lemma marked_imp_is_chain: "marked_permanent e \<Longrightarrow> is_chain (Some e) ErrPermanent"
proof (induction rule: marked_permanent.induct)
  case sentinel
  show ?case by (rule is_chain_sentinel)
next
  case (wrapper x)
  show ?case by (rule is_chain_wrapper)
next
  case (in_retry e n)
  from in_retry.IH show ?case by (rule is_chain_in_retry)
next
  case (in_aggregate e xs)
  from in_aggregate.hyps(1) in_aggregate.IH show ?case by (rule is_chain_in_aggregate)
qed

lemma IsPermanentError_iff: "IsPermanentError (Some e) = marked_permanent e"
proof
  assume "IsPermanentError (Some e)"
  then have "is_chain (Some e) ErrPermanent"
    by (simp add: IsPermanentError_def errors_Is_def)
  from is_chain_imp_marked [OF this refl] show "marked_permanent e" by simp
next
  assume "marked_permanent e"
  then show "IsPermanentError (Some e)"
    by (simp add: IsPermanentError_def errors_Is_def marked_imp_is_chain del: is_chain.simps)
qed

lemma IsPermanentError_nil: "\<not> IsPermanentError None"
  by (simp add: IsPermanentError_def errors_Is_def)

lemma IsPermanentError_Permanent: "IsPermanentError (Permanent (Some e))"
  by (simp add: IsPermanentError_def errors_Is_def Permanent_def)

lemma builtin_ShouldRetry: "builtin s \<Longrightarrow> ShouldRetry s attempt err = (\<not> IsPermanentError err)"
  by (cases s) simp_all

text \<open>
  Claim C9. For every attempt number and every error, \<open>ShouldRetry\<close> of a built-in
  strategy (ExponentialBackoff, LinearBackoff, ConstantDelay, NoDelay) is false exactly
  when the error carries the permanent marker; it is true for \<open>nil\<close> and the same at
  every attempt number. A \<open>CustomStrategy\<close> with a nil delay function gives the delay
  zero at every attempt, and with a nil continuation function it continues at every
  attempt and error.
\<close>

theorem builtin_ShouldRetry_only_permanent:
  "(builtin s \<longrightarrow>
      (\<not> ShouldRetry s attempt (Some e)) = marked_permanent e
      \<and> ShouldRetry s attempt None
      \<and> ShouldRetry s attempt err = ShouldRetry s attempt' err)
   \<and> NextDelay (CustomStrategy None shouldRetryFunc) attempt = 0
   \<and> ShouldRetry (CustomStrategy delayFunc None) attempt err"
  by (simp add: builtin_ShouldRetry IsPermanentError_iff IsPermanentError_nil)

theorem builtin_ShouldRetry_only_permanent_witness:
  "builtin (ConstantDelay 1000000000)
   \<and> \<not> ShouldRetry (ConstantDelay 1000000000) 2 (Some (PermanentError (Some (New ''invalid configuration''))))
   \<and> marked_permanent (PermanentError (Some (New ''invalid configuration'')))
   \<and> ShouldRetry (ConstantDelay 1000000000) 2 None
   \<and> ShouldRetry (ConstantDelay 1000000000) 2 (Some (New ''temporary error''))
        = ShouldRetry (ConstantDelay 1000000000) 7 (Some (New ''temporary error''))
   \<and> NextDelay (CustomStrategy None None) 2 = 0
   \<and> ShouldRetry (CustomStrategy None None) 2 (Some (New ''temporary error''))"
  using builtin_ShouldRetry_only_permanent [where s = "ConstantDelay 1000000000" and attempt = 2
      and e = "PermanentError (Some (New ''invalid configuration''))"
      and err = "Some (New ''temporary error'')" and attempt' = 7
      and shouldRetryFunc = None and delayFunc = None]
  by (simp add: IsPermanentError_def errors_Is_def)

section \<open>The delays of ExponentialBackoff\<close>

lemma exp_loop_done: "attempt \<le> i \<Longrightarrow> exp_loop m c attempt i delay = delay"
  by (subst exp_loop.simps) simp

lemma exp_loop_step:
  "i < attempt \<Longrightarrow> exp_loop m c attempt i delay =
     (if 0 < c \<and> c < scale m delay then c else exp_loop m c attempt (i + 1) (scale m delay))"
  by (subst exp_loop.simps) (simp add: Let_def)







text \<open>
  Claim C10. The clamp of ExponentialBackoff applies from attempt 2 on: attempt 1 returns
  \<open>InitialDelay\<close> as it is, also when it exceeds \<open>MaxDelay\<close>; every attempt less than or
  equal to 0 returns the delay zero; attempt 2 returns \<open>MaxDelay\<close> when that is positive
  and the scaled initial delay exceeds it.
\<close>

theorem ExponentialBackoff_clamp_from_second_attempt:
  "NextDelay (ExponentialBackoff d m c) 1 = d
   \<and> (attempt \<le> 0 \<longrightarrow> NextDelay (ExponentialBackoff d m c) attempt = 0)
   \<and> NextDelay (ExponentialBackoff d m c) 2 = (if 0 < c \<and> c < scale m d then c else scale m d)"
  by (simp add: exp_loop_done exp_loop_step)

theorem ExponentialBackoff_clamp_from_second_attempt_witness:
  "NextDelay (ExponentialBackoff 2000000000 (Finite 2 0) 1000000000) 1 = 2000000000
   \<and> (1000000000::int) < 2000000000
   \<and> (-3::int) \<le> 0
   \<and> NextDelay (ExponentialBackoff 2000000000 (Finite 2 0) 1000000000) (-3) = 0
   \<and> NextDelay (ExponentialBackoff 2000000000 (Finite 2 0) 1000000000) 2 = 1000000000"
proof -
  have s: "scale (Finite 2 0) 2000000000 = 4000000000" by code_simp
  show ?thesis
    using ExponentialBackoff_clamp_from_second_attempt [of 2000000000 "Finite 2 0" 1000000000 "-3"] by (simp add: s)
qed

section \<open>The retry loop\<close>

lemma do_loop_cancelled:
  "attempt \<le> MaxAttempts opts \<Longrightarrow> ctx_Err w = Some ce \<Longrightarrow>
   do_loop zero sleep fn opts attempt lastErr w tr = ((zero, Some ce), tr)"
  by (subst do_loop.simps) simp

lemma do_loop_success:
  "attempt \<le> MaxAttempts opts \<Longrightarrow> ctx_Err w = None \<Longrightarrow> fn w = ((v, None), w1) \<Longrightarrow>
   do_loop zero sleep fn opts attempt lastErr w tr = ((v, None), tr @ [Invoked attempt None])"
  by (subst do_loop.simps) simp

lemma do_loop_rejected:
  "attempt \<le> MaxAttempts opts \<Longrightarrow> ctx_Err w = None \<Longrightarrow> fn w = ((v, Some e), w1) \<Longrightarrow>
   \<not> shouldRetryError opts (Some e) \<or> \<not> ShouldRetry (Strategy opts) attempt (Some e) \<Longrightarrow>
   do_loop zero sleep fn opts attempt lastErr w tr = ((zero, Some e), tr @ [Invoked attempt (Some e)])"
  by (subst do_loop.simps) auto

lemma do_loop_last:
  "attempt = MaxAttempts opts \<Longrightarrow> ctx_Err w = None \<Longrightarrow> fn w = ((v, Some e), w1) \<Longrightarrow>
   shouldRetryError opts (Some e) \<Longrightarrow> ShouldRetry (Strategy opts) attempt (Some e) \<Longrightarrow>
   do_loop zero sleep fn opts attempt lastErr w tr =
     ((zero, Some (RetryError (Some e) (MaxAttempts opts))), tr @ [Invoked attempt (Some e)])"
  by (subst do_loop.simps) (simp add: isLastAttempt_def)

lemma do_loop_wait_error:
  "attempt < MaxAttempts opts \<Longrightarrow> ctx_Err w = None \<Longrightarrow> fn w = ((v, Some e), w1) \<Longrightarrow>
   shouldRetryError opts (Some e) \<Longrightarrow> ShouldRetry (Strategy opts) attempt (Some e) \<Longrightarrow>
   waitForRetry sleep (calculateDelay opts attempt) (callOnRetry opts attempt (Some e) w1) = (Some ce, w3) \<Longrightarrow>
   do_loop zero sleep fn opts attempt lastErr w tr =
     ((zero, Some ce), tr @ [Invoked attempt (Some e)] @ onRetryEvents opts attempt (Some e)
        @ [Waited attempt (calculateDelay opts attempt)])"
  by (subst do_loop.simps) (simp add: isLastAttempt_def)

lemma do_loop_next:
  "attempt < MaxAttempts opts \<Longrightarrow> ctx_Err w = None \<Longrightarrow> fn w = ((v, Some e), w1) \<Longrightarrow>
   shouldRetryError opts (Some e) \<Longrightarrow> ShouldRetry (Strategy opts) attempt (Some e) \<Longrightarrow>
   waitForRetry sleep (calculateDelay opts attempt) (callOnRetry opts attempt (Some e) w1) = (None, w3) \<Longrightarrow>
   do_loop zero sleep fn opts attempt lastErr w tr =
     do_loop zero sleep fn opts (attempt + 1) (Some e) w3
       (tr @ [Invoked attempt (Some e)] @ onRetryEvents opts attempt (Some e)
          @ [Waited attempt (calculateDelay opts attempt)])"
  by (subst do_loop.simps) (simp add: isLastAttempt_def)

lemma waitForRetry_cases:
  "sleep delay w = (wk, w') \<Longrightarrow>
   waitForRetry sleep delay w = (if wk = CtxDone then ctx_Err w' else None, w')"
  by (cases wk) (simp_all add: waitForRetry_def)

lemma do_loop_cancelled_in_wait:
  assumes "attempt < MaxAttempts opts" and "ctx_Err w = None" and "fn w = ((v, Some e), w1)"
    and "shouldRetryError opts (Some e)" and "ShouldRetry (Strategy opts) attempt (Some e)"
    and sl: "sleep (calculateDelay opts attempt) (callOnRetry opts attempt (Some e) w1) = (wk, w3)"
    and c: "ctx_Err w3 = Some ce"
  shows "do_loop zero sleep fn opts attempt lastErr w tr =
     ((zero, Some ce), tr @ [Invoked attempt (Some e)] @ onRetryEvents opts attempt (Some e)
        @ [Waited attempt (calculateDelay opts attempt)])"
proof (cases wk)
  case CtxDone
  with sl c have "waitForRetry sleep (calculateDelay opts attempt)
      (callOnRetry opts attempt (Some e) w1) = (Some ce, w3)"
    by (simp add: waitForRetry_def)
  with assms show ?thesis by (simp add: do_loop_wait_error)
next
  case TimerFired
  with sl have wt: "waitForRetry sleep (calculateDelay opts attempt)
      (callOnRetry opts attempt (Some e) w1) = (None, w3)"
    by (simp add: waitForRetry_def)
  from assms(1) have "attempt + 1 \<le> MaxAttempts opts" by simp
  from do_loop_cancelled [OF this c]
    do_loop_next [where fn = fn and w = w and v = v and e = e and ?w1.0 = w1, OF assms(1-5) wt]
  show ?thesis by simp
qed

lemma invocations_append: "invocations (xs @ ys) = invocations xs @ invocations ys"
  by (induction xs rule: invocations.induct) simp_all

lemma invocations_onRetryEvents: "invocations (onRetryEvents opts attempt err) = []"
  by (simp add: onRetryEvents_def split: option.splits)

lemma attempt_of_onRetryEvents: "ev \<in> set (onRetryEvents opts attempt err) \<Longrightarrow> attempt_of ev = attempt"
  by (auto simp: onRetryEvents_def split: option.splits)

lemma do_loop_exhausts:
  assumes fails: "\<And>w. ctx_Err w = None \<Longrightarrow>
        \<exists>v e w'. fn w = ((v, Some e), w') \<and> ctx_Err w' = None \<and> shouldRetryError opts (Some e)
          \<and> (\<forall>a. ShouldRetry (Strategy opts) a (Some e))"
    and callback: "\<And>a e w. ctx_Err w = None \<Longrightarrow> ctx_Err (callOnRetry opts a e w) = None"
    and waits: "\<And>d w. ctx_Err w = None \<Longrightarrow> ctx_Err (snd (sleep d w)) = None"
  shows "k \<le> MaxAttempts opts \<Longrightarrow> ctx_Err w = None \<Longrightarrow>
     \<exists>e tr'. do_loop zero sleep fn opts k lastErr w tr =
          ((zero, Some (RetryError (Some e) (MaxAttempts opts))),
           tr @ tr' @ [Invoked (MaxAttempts opts) (Some e)])
        \<and> invocations (tr' @ [Invoked (MaxAttempts opts) (Some e)]) = [k..MaxAttempts opts]
        \<and> (\<forall>ev \<in> set tr'. attempt_of ev < MaxAttempts opts)"
proof (induction "nat (MaxAttempts opts - k)" arbitrary: k w lastErr tr)
  case 0
  then have k: "k = MaxAttempts opts" by simp
  from fails [OF "0.prems"(2)] obtain v e w' where
    f: "fn w = ((v, Some e), w')" "shouldRetryError opts (Some e)"
       "ShouldRetry (Strategy opts) k (Some e)" by blast
  from do_loop_last [where fn = fn and w = w and v = v and e = e and ?w1.0 = w', OF k "0.prems"(2) f]
  have "do_loop zero sleep fn opts k lastErr w tr =
      ((zero, Some (RetryError (Some e) (MaxAttempts opts))), tr @ [] @ [Invoked (MaxAttempts opts) (Some e)])"
    using k by simp
  moreover have "invocations ([] @ [Invoked (MaxAttempts opts) (Some e)]) = [k..MaxAttempts opts]"
    using k by simp
  ultimately show ?case by (metis empty_iff list.set(1))
next
  case (Suc n)
  then have k: "k < MaxAttempts opts" and n: "n = nat (MaxAttempts opts - (k + 1))" by simp_all
  from fails [OF Suc.prems(2)] obtain v e w1 where
    f: "fn w = ((v, Some e), w1)" "shouldRetryError opts (Some e)"
       "ShouldRetry (Strategy opts) k (Some e)" and w1: "ctx_Err w1 = None" by blast
  let ?d = "calculateDelay opts k"
  let ?w2 = "callOnRetry opts k (Some e) w1"
  obtain wk w3 where sl: "sleep ?d ?w2 = (wk, w3)" by (cases "sleep ?d ?w2")
  from callback [OF w1] have "ctx_Err ?w2 = None" .
  from waits [OF this, of ?d] sl have w3: "ctx_Err w3 = None" by simp
  with sl have wt: "waitForRetry sleep ?d ?w2 = (None, w3)"
    by (simp add: waitForRetry_cases)
  let ?tr = "tr @ [Invoked k (Some e)] @ onRetryEvents opts k (Some e) @ [Waited k ?d]"
  from do_loop_next [where fn = fn and w = w and v = v and e = e and ?w1.0 = w1,
      OF k Suc.prems(2) f wt]
  have step: "do_loop zero sleep fn opts k lastErr w tr =
      do_loop zero sleep fn opts (k + 1) (Some e) w3 ?tr" .
  from k have "k + 1 \<le> MaxAttempts opts" by simp
  from Suc.hyps(1) [OF n this w3, of "Some e" ?tr]
  obtain e' tr' where
    r: "do_loop zero sleep fn opts (k + 1) (Some e) w3 ?tr =
         ((zero, Some (RetryError (Some e') (MaxAttempts opts))),
          ?tr @ tr' @ [Invoked (MaxAttempts opts) (Some e')])"
    and i: "invocations (tr' @ [Invoked (MaxAttempts opts) (Some e')]) = [k + 1..MaxAttempts opts]"
    and b: "\<forall>ev \<in> set tr'. attempt_of ev < MaxAttempts opts" by blast
  let ?tr' = "[Invoked k (Some e)] @ onRetryEvents opts k (Some e) @ [Waited k ?d] @ tr'"
  have "do_loop zero sleep fn opts k lastErr w tr =
         ((zero, Some (RetryError (Some e') (MaxAttempts opts))),
          tr @ ?tr' @ [Invoked (MaxAttempts opts) (Some e')])"
    using step r by simp
  moreover have "invocations (?tr' @ [Invoked (MaxAttempts opts) (Some e')]) = [k..MaxAttempts opts]"
    using i k by (simp add: invocations_append invocations_onRetryEvents upto_rec1 del: append_assoc)
  moreover have "\<forall>ev \<in> set ?tr'. attempt_of ev < MaxAttempts opts"
    using b k by (auto dest: attempt_of_onRetryEvents)
  ultimately show ?case by blast
qed

text \<open>
  Claim C8. \<open>Do\<close> surfaces the cancellation of its scope as it is. When the scope is
  cancelled at the start of an attempt, the loop returns the scope's error and adds no
  event: the function is not invoked; so does \<open>Do\<close> itself, called with a positive
  \<open>MaxAttempts\<close> under a cancelled scope. When the scope is cancelled during the wait
  after a failed attempt, whichever branch of the \<open>select\<close> wakes first, the loop (at any
  attempt) and \<open>Do\<close> (at the first) return the scope's error, not a \<open>RetryError\<close>, and
  the wait is the last event: no invocation follows.
\<close>

theorem Do_cancellation:
  "(attempt \<le> MaxAttempts opts \<and> ctx_Err w = Some ce \<longrightarrow>
      do_loop zero sleep fn opts attempt lastErr w tr = ((zero, Some ce), tr))
   \<and> (0 < MaxAttempts opts \<and> ctx_Err w = Some ce \<longrightarrow>
      Do zero sleep w fn opts = ((zero, Some ce), []))
   \<and> (attempt < MaxAttempts opts \<and> ctx_Err w = None \<and> fn w = ((v, Some e), w1)
        \<and> shouldRetryError opts (Some e) \<and> ShouldRetry (Strategy opts) attempt (Some e)
        \<and> sleep (calculateDelay opts attempt) (callOnRetry opts attempt (Some e) w1) = (wk, w3)
        \<and> ctx_Err w3 = Some ce \<longrightarrow>
      do_loop zero sleep fn opts attempt lastErr w tr =
        ((zero, Some ce), tr @ [Invoked attempt (Some e)] @ onRetryEvents opts attempt (Some e)
           @ [Waited attempt (calculateDelay opts attempt)]))
   \<and> (1 < MaxAttempts opts \<and> ctx_Err ctx = None \<and> fn ctx = ((v', Some e'), w1')
        \<and> shouldRetryError opts (Some e') \<and> ShouldRetry (Strategy opts) 1 (Some e')
        \<and> sleep (calculateDelay opts 1) (callOnRetry opts 1 (Some e') w1') = (wk', w3')
        \<and> ctx_Err w3' = Some ce \<longrightarrow>
      Do zero sleep ctx fn opts =
        ((zero, Some ce), [Invoked 1 (Some e')] @ onRetryEvents opts 1 (Some e')
           @ [Waited 1 (calculateDelay opts 1)]))"
proof (intro conjI impI)
  assume "attempt \<le> MaxAttempts opts \<and> ctx_Err w = Some ce"
  then show "do_loop zero sleep fn opts attempt lastErr w tr = ((zero, Some ce), tr)"
    by (simp add: do_loop_cancelled)
next
  assume "0 < MaxAttempts opts \<and> ctx_Err w = Some ce"
  then show "Do zero sleep w fn opts = ((zero, Some ce), [])"
    by (simp add: Do_def do_loop_cancelled)
next
  assume a: "attempt < MaxAttempts opts \<and> ctx_Err w = None \<and> fn w = ((v, Some e), w1)
        \<and> shouldRetryError opts (Some e) \<and> ShouldRetry (Strategy opts) attempt (Some e)
        \<and> sleep (calculateDelay opts attempt) (callOnRetry opts attempt (Some e) w1) = (wk, w3)
        \<and> ctx_Err w3 = Some ce"
  then show "do_loop zero sleep fn opts attempt lastErr w tr =
        ((zero, Some ce), tr @ [Invoked attempt (Some e)] @ onRetryEvents opts attempt (Some e)
           @ [Waited attempt (calculateDelay opts attempt)])"
    by (intro do_loop_cancelled_in_wait [where ?w1.0 = w1 and wk = wk and ?w3.0 = w3 and v = v]) simp_all
next
  assume a: "1 < MaxAttempts opts \<and> ctx_Err ctx = None \<and> fn ctx = ((v', Some e'), w1')
        \<and> shouldRetryError opts (Some e') \<and> ShouldRetry (Strategy opts) 1 (Some e')
        \<and> sleep (calculateDelay opts 1) (callOnRetry opts 1 (Some e') w1') = (wk', w3')
        \<and> ctx_Err w3' = Some ce"
  then have "do_loop zero sleep fn opts 1 None ctx [] =
        ((zero, Some ce), [] @ [Invoked 1 (Some e')] @ onRetryEvents opts 1 (Some e')
           @ [Waited 1 (calculateDelay opts 1)])"
    by (intro do_loop_cancelled_in_wait [where ?w1.0 = w1' and wk = wk' and ?w3.0 = w3' and v = v'])
      simp_all
  with a show "Do zero sleep ctx fn opts =
        ((zero, Some ce), [Invoked 1 (Some e')] @ onRetryEvents opts 1 (Some e')
           @ [Waited 1 (calculateDelay opts 1)])"
    by (simp add: Do_def)
qed

theorem Do_cancellation_witness:
  "1 \<le> MaxAttempts (options (ConstantDelay 100000000) 5)
   \<and> ctx_Err cancelled = Some Canceled
   \<and> do_loop 0 cancelling_sleep (always_fails ''error'') (options (ConstantDelay 100000000) 5)
        1 None cancelled [] = ((0, Some Canceled), [])
   \<and> Do 0 cancelling_sleep cancelled (always_fails ''error'') (options (ConstantDelay 100000000) 5) =
        ((0, Some Canceled), [])
   \<and> ctx_Err background = None
   \<and> always_fails ''error'' background = ((0, Some (New ''error'')), background)
   \<and> shouldRetryError (options (ConstantDelay 100000000) 5) (Some (New ''error''))
   \<and> ShouldRetry (ConstantDelay 100000000) 1 (Some (New ''error''))
   \<and> cancelling_sleep 100000000 background = (CtxDone, cancelled)
   \<and> do_loop 0 cancelling_sleep (always_fails ''error'') (options (ConstantDelay 100000000) 5)
        1 None background [] =
        ((0, Some Canceled), [Invoked 1 (Some (New ''error'')), Waited 1 100000000])
   \<and> Do 0 cancelling_sleep background (always_fails ''error'') (options (ConstantDelay 100000000) 5) =
        ((0, Some Canceled), [Invoked 1 (Some (New ''error'')), Waited 1 100000000])"
  using Do_cancellation [where opts = "options (ConstantDelay 100000000) 5" and attempt = 1 and w = cancelled
      and ce = Canceled and fn = "always_fails ''error''" and zero = 0 and sleep = cancelling_sleep
      and lastErr = None and tr = "[]"]
    Do_cancellation [where opts = "options (ConstantDelay 100000000) 5" and attempt = 1 and w = background
      and ce = Canceled and fn = "always_fails ''error''" and zero = 0 and sleep = cancelling_sleep
      and lastErr = None and tr = "[]" and v = 0 and e = "New ''error''" and ?w1.0 = background
      and wk = CtxDone and ?w3.0 = cancelled and ctx = background and v' = 0
      and e' = "New ''error''" and ?w1' = background and wk' = CtxDone and ?w3' = cancelled]
  by (simp add: options_def background_def cancelled_def always_fails_def cancelling_sleep_def
      shouldRetryError_def calculateDelay_def callOnRetry_def onRetryEvents_def
      IsPermanentError_def errors_Is_def)

text \<open>
  Under a built-in strategy (ExponentialBackoff, LinearBackoff, ConstantDelay, NoDelay),
  when an invocation fails with an error that carries the permanent marker, \<open>Do\<close> stops
  right after that invocation, whatever \<open>RetryIf\<close> says and however many attempts
  remain, and returns the error as the task returned it: for \<open>Permanent(e)\<close> the
  \<open>PermanentError\<close> that matches \<open>ErrPermanent\<close> through \<open>errors.Is\<close> and whose \<open>Unwrap\<close>
  is \<open>e\<close>. The test "permanent error" is the case \<open>NoDelay\<close>.
\<close>

lemma Do_stops_on_permanent_error_builtin:
  "(builtin (Strategy opts) \<and> attempt \<le> MaxAttempts opts \<and> ctx_Err w = None
      \<and> fn w = ((v, Some err), w1) \<and> IsPermanentError (Some err) \<longrightarrow>
      do_loop zero sleep fn opts attempt lastErr w tr = ((zero, Some err), tr @ [Invoked attempt (Some err)]))
   \<and> (builtin (Strategy opts) \<and> 0 < MaxAttempts opts \<and> ctx_Err w = None
      \<and> fn w = ((v, Permanent (Some e)), w1) \<longrightarrow>
      Do zero sleep w fn opts = ((zero, Permanent (Some e)), [Invoked 1 (Permanent (Some e))]))
   \<and> Permanent (Some e) = Some (PermanentError (Some e))
   \<and> Unwrap (PermanentError (Some e)) = Some e
   \<and> errors_Is (Permanent (Some e)) (Some ErrPermanent)"
proof (intro conjI impI)
  assume a: "builtin (Strategy opts) \<and> attempt \<le> MaxAttempts opts \<and> ctx_Err w = None
      \<and> fn w = ((v, Some err), w1) \<and> IsPermanentError (Some err)"
  then have "\<not> ShouldRetry (Strategy opts) attempt (Some err)"
    by (simp add: builtin_ShouldRetry)
  with a show "do_loop zero sleep fn opts attempt lastErr w tr =
      ((zero, Some err), tr @ [Invoked attempt (Some err)])"
    by (intro do_loop_rejected [where v = v and ?w1.0 = w1]) simp_all
next
  assume a: "builtin (Strategy opts) \<and> 0 < MaxAttempts opts \<and> ctx_Err w = None
      \<and> fn w = ((v, Permanent (Some e)), w1)"
  then have "\<not> ShouldRetry (Strategy opts) 1 (Some (PermanentError (Some e)))"
    using IsPermanentError_Permanent [of e] by (simp add: builtin_ShouldRetry Permanent_def)
  with a have "do_loop zero sleep fn opts 1 None w [] =
      ((zero, Some (PermanentError (Some e))), [] @ [Invoked 1 (Some (PermanentError (Some e)))])"
    by (intro do_loop_rejected [where v = v and ?w1.0 = w1]) (simp_all add: Permanent_def)
  with a show "Do zero sleep w fn opts = ((zero, Permanent (Some e)), [Invoked 1 (Permanent (Some e))])"
    by (simp add: Do_def Permanent_def)
next
  show "Permanent (Some e) = Some (PermanentError (Some e))" by (simp add: Permanent_def)
next
  show "Unwrap (PermanentError (Some e)) = Some e" by simp
next
  show "errors_Is (Permanent (Some e)) (Some ErrPermanent)"
    using IsPermanentError_Permanent [of e] by (simp add: IsPermanentError_def)
qed

lemma test_Do_permanent_error:
  "builtin (Strategy (options NoDelay 5))
   \<and> 1 \<le> MaxAttempts (options NoDelay 5)
   \<and> ctx_Err background = None
   \<and> fails_permanently ''permanent failure'' background =
        ((0, Permanent (Some (New ''permanent failure''))), background)
   \<and> IsPermanentError (Some (PermanentError (Some (New ''permanent failure''))))
   \<and> do_loop 0 timer_sleep (fails_permanently ''permanent failure'') (options NoDelay 5) 1 None background [] =
        ((0, Some (PermanentError (Some (New ''permanent failure'')))),
         [Invoked 1 (Some (PermanentError (Some (New ''permanent failure''))))])
   \<and> Do 0 timer_sleep background (fails_permanently ''permanent failure'') (options NoDelay 5) =
        ((0, Some (PermanentError (Some (New ''permanent failure'')))),
         [Invoked 1 (Some (PermanentError (Some (New ''permanent failure''))))])
   \<and> Unwrap (PermanentError (Some (New ''permanent failure''))) = Some (New ''permanent failure'')
   \<and> errors_Is (Some (PermanentError (Some (New ''permanent failure'')))) (Some ErrPermanent)"
  using Do_stops_on_permanent_error_builtin [where opts = "options NoDelay 5" and attempt = 1 and w = background
      and fn = "fails_permanently ''permanent failure''" and v = 0 and ?w1.0 = background
      and err = "PermanentError (Some (New ''permanent failure''))"
      and e = "New ''permanent failure''" and zero = 0 and sleep = timer_sleep
      and lastErr = None and tr = "[]"]
  by (simp add: options_def background_def fails_permanently_def Permanent_def
      IsPermanentError_def errors_Is_def)

text \<open>
  Claim C1. When a task fails with an error marked permanent, \<open>Do\<close> is to stop right
  after that invocation, whatever the strategy, the \<open>RetryIf\<close> predicate and the attempts
  that remain, and to return that error, which still matches \<open>ErrPermanent\<close>. The code
  does not do so under a \<open>CustomStrategy\<close> with a nil continuation function: \<open>Do\<close> has
  no test of its own for the marker, so with \<open>MaxAttempts = 3\<close> the task that fails with
  \<open>Permanent(errors.New("permanent failure"))\<close> is invoked three times, with a wait after
  the first and the second, and \<open>Do\<close> returns a \<open>RetryError\<close>.
\<close>

theorem Do_retries_permanent_error_under_CustomStrategy:
  "IsPermanentError (Permanent (Some (New ''permanent failure'')))
   \<and> Do 0 timer_sleep background (fails_permanently ''permanent failure'')
        (options (CustomStrategy None None) 3) =
       ((0, Some (RetryError (Some (PermanentError (Some (New ''permanent failure'')))) 3)),
        [Invoked 1 (Some (PermanentError (Some (New ''permanent failure'')))), Waited 1 0,
         Invoked 2 (Some (PermanentError (Some (New ''permanent failure'')))), Waited 2 0,
         Invoked 3 (Some (PermanentError (Some (New ''permanent failure''))))])
   \<and> invocations (snd (Do 0 timer_sleep background (fails_permanently ''permanent failure'')
        (options (CustomStrategy None None) 3))) = [1, 2, 3]"
  by (simp add: Do_def do_loop.simps options_def background_def fails_permanently_def
      timer_sleep_def shouldRetryError_def isLastAttempt_def calculateDelay_def waitForRetry_def
      callOnRetry_def onRetryEvents_def Permanent_def IsPermanentError_def errors_Is_def)

lemma world_before_uncancelled:
  assumes c0: "ctx_Err ctx = None"
    and fails: "\<And>w. ctx_Err w = None \<Longrightarrow>
        \<exists>v e w'. fn w = ((v, Some e), w') \<and> ctx_Err w' = None \<and> shouldRetryError opts (Some e)
          \<and> (\<forall>a. ShouldRetry (Strategy opts) a (Some e))"
    and callback: "\<And>a e w. ctx_Err w = None \<Longrightarrow> ctx_Err (callOnRetry opts a e w) = None"
    and waits: "\<And>d w. ctx_Err w = None \<Longrightarrow> ctx_Err (snd (sleep d w)) = None"
  shows "ctx_Err (world_before sleep fn opts ctx k) = None"
proof (induction k)
  case 0
  show ?case using c0 by simp
next
  case (Suc k)
  from fails [OF Suc] obtain v e w' where
    f: "fn (world_before sleep fn opts ctx k) = ((v, Some e), w')" and w': "ctx_Err w' = None"
    by blast
  from callback [OF w'] have "ctx_Err (callOnRetry opts (int k + 1) (Some e) w') = None" .
  from waits [OF this] show ?case by (simp add: f)
qed

lemma do_loop_run:
  assumes c0: "ctx_Err ctx = None"
    and fails: "\<And>w. ctx_Err w = None \<Longrightarrow>
        \<exists>v e w'. fn w = ((v, Some e), w') \<and> ctx_Err w' = None \<and> shouldRetryError opts (Some e)
          \<and> (\<forall>a. ShouldRetry (Strategy opts) a (Some e))"
    and callback: "\<And>a e w. ctx_Err w = None \<Longrightarrow> ctx_Err (callOnRetry opts a e w) = None"
    and waits: "\<And>d w. ctx_Err w = None \<Longrightarrow> ctx_Err (snd (sleep d w)) = None"
  shows "int j + 1 \<le> MaxAttempts opts \<Longrightarrow>
     do_loop zero sleep fn opts (int j + 1) lastErr (world_before sleep fn opts ctx j) tr =
       ((zero, Some (RetryError (error_of_call sleep fn opts ctx (nat (MaxAttempts opts) - 1))
                       (MaxAttempts opts))),
        tr @ concat (map (\<lambda>k. events_of_attempt opts (int k + 1) (error_of_call sleep fn opts ctx k))
                      [j..<nat (MaxAttempts opts) - 1])
           @ [Invoked (MaxAttempts opts) (error_of_call sleep fn opts ctx (nat (MaxAttempts opts) - 1))])"
proof (induction "nat (MaxAttempts opts) - 1 - j" arbitrary: j lastErr tr)
  case 0
  let ?w = "world_before sleep fn opts ctx j"
  from 0 have j: "j = nat (MaxAttempts opts) - 1" and k: "int j + 1 = MaxAttempts opts" by auto
  have c: "ctx_Err ?w = None" by (rule world_before_uncancelled [OF c0 fails callback waits])
  from fails [OF c] obtain v e w1 where
    f: "fn ?w = ((v, Some e), w1)" "shouldRetryError opts (Some e)"
       "ShouldRetry (Strategy opts) (int j + 1) (Some e)" by blast
  from f(1) have e: "error_of_call sleep fn opts ctx j = Some e" by (simp add: error_of_call_def)
  from do_loop_last [where fn = fn and w = ?w and v = v and e = e and ?w1.0 = w1, OF k c f]
  have "do_loop zero sleep fn opts (int j + 1) lastErr ?w tr =
      ((zero, Some (RetryError (Some e) (MaxAttempts opts))), tr @ [Invoked (int j + 1) (Some e)])" .
  moreover from j have jj: "nat (MaxAttempts opts) - 1 = j" by simp
  ultimately show ?case unfolding jj using e k by simp
next
  case (Suc m)
  let ?w = "world_before sleep fn opts ctx j"
  let ?k = "int j + 1"
  from Suc have lt: "?k < MaxAttempts opts" and jl: "j < nat (MaxAttempts opts) - 1"
    and m: "m = nat (MaxAttempts opts) - 1 - Suc j" by auto
  have c: "ctx_Err ?w = None" by (rule world_before_uncancelled [OF c0 fails callback waits])
  from fails [OF c] obtain v e w1 where
    f: "fn ?w = ((v, Some e), w1)" "shouldRetryError opts (Some e)"
       "ShouldRetry (Strategy opts) ?k (Some e)" and w1c: "ctx_Err w1 = None" by blast
  from f(1) have e: "error_of_call sleep fn opts ctx j = Some e" by (simp add: error_of_call_def)
  let ?d = "calculateDelay opts ?k"
  let ?w2 = "callOnRetry opts ?k (Some e) w1"
  obtain wk w3 where sl: "sleep ?d ?w2 = (wk, w3)" by (cases "sleep ?d ?w2")
  from f(1) sl have w3: "world_before sleep fn opts ctx (Suc j) = w3" by simp
  from callback [OF w1c] have "ctx_Err ?w2 = None" .
  from waits [OF this, of ?d] sl have c3: "ctx_Err w3 = None" by simp
  with sl have wt: "waitForRetry sleep ?d ?w2 = (None, w3)" by (simp add: waitForRetry_cases)
  from do_loop_next [where fn = fn and w = ?w and v = v and e = e and ?w1.0 = w1, OF lt c f wt]
  have step: "do_loop zero sleep fn opts ?k lastErr ?w tr =
      do_loop zero sleep fn opts (?k + 1) (Some e) w3 (tr @ events_of_attempt opts ?k (Some e))"
    by (simp add: events_of_attempt_def)
  have k1: "?k + 1 = int (Suc j) + 1" by simp
  from lt have "int (Suc j) + 1 \<le> MaxAttempts opts" by simp
  from Suc.hyps(1) [where lastErr = "Some e" and tr = "tr @ events_of_attempt opts ?k (Some e)",
      OF m this]
  have "do_loop zero sleep fn opts (?k + 1) (Some e) w3 (tr @ events_of_attempt opts ?k (Some e)) =
       ((zero, Some (RetryError (error_of_call sleep fn opts ctx (nat (MaxAttempts opts) - 1))
                       (MaxAttempts opts))),
        (tr @ events_of_attempt opts ?k (Some e))
           @ concat (map (\<lambda>k. events_of_attempt opts (int k + 1) (error_of_call sleep fn opts ctx k))
                      [Suc j..<nat (MaxAttempts opts) - 1])
           @ [Invoked (MaxAttempts opts) (error_of_call sleep fn opts ctx (nat (MaxAttempts opts) - 1))])"
    by (simp only: k1 w3)
  moreover from jl have "[j..<nat (MaxAttempts opts) - 1] = j # [Suc j..<nat (MaxAttempts opts) - 1]"
    by (rule upt_conv_Cons)
  ultimately show ?case using step e by simp
qed

text \<open>
  Claim C4. Let the scope stay uncancelled and let the function fail at every invocation
  with an error that is not permanent, that \<open>RetryIf\<close> accepts and, where the strategy is
  a \<open>CustomStrategy\<close>, that its continuation function accepts. Then \<open>Do\<close> with
  \<open>MaxAttempts = n > 0\<close> calls the function \<open>n\<close> times, each call in the world the
  previous call, \<open>OnRetry\<close> and the wait left behind, and returns a \<open>RetryError\<close> with
  \<open>Attempts = n\<close> whose \<open>LastError\<close> is the error the \<open>n\<close>-th call returned. Its
  events are, for each attempt before the last, the invocation with the error that call
  returned, the call of \<open>OnRetry\<close> (when configured) and the wait, and then the \<open>n\<close>-th
  invocation alone: on the last attempt there is no \<open>OnRetry\<close> and no wait.
\<close>

theorem Do_exhausts_MaxAttempts:
  assumes "0 < MaxAttempts opts" and "ctx_Err ctx = None"
    and fails: "\<And>w. ctx_Err w = None \<Longrightarrow>
        \<exists>v e w'. fn w = ((v, Some e), w') \<and> ctx_Err w' = None
          \<and> \<not> IsPermanentError (Some e) \<and> shouldRetryError opts (Some e)
          \<and> (builtin (Strategy opts) \<or> (\<forall>a. ShouldRetry (Strategy opts) a (Some e)))"
    and callback: "\<And>a e w. ctx_Err w = None \<Longrightarrow> ctx_Err (callOnRetry opts a e w) = None"
    and waits: "\<And>d w. ctx_Err w = None \<Longrightarrow> ctx_Err (snd (sleep d w)) = None"
  shows "Do zero sleep ctx fn opts =
          ((zero, Some (RetryError (error_of_call sleep fn opts ctx (nat (MaxAttempts opts) - 1))
                          (MaxAttempts opts))),
           concat (map (\<lambda>k. events_of_attempt opts (int k + 1) (error_of_call sleep fn opts ctx k))
                     [0..<nat (MaxAttempts opts) - 1])
             @ [Invoked (MaxAttempts opts)
                  (error_of_call sleep fn opts ctx (nat (MaxAttempts opts) - 1))])
        \<and> (\<exists>e. error_of_call sleep fn opts ctx (nat (MaxAttempts opts) - 1) = Some e)
        \<and> invocations (snd (Do zero sleep ctx fn opts)) = [1..MaxAttempts opts]
        \<and> int (length (invocations (snd (Do zero sleep ctx fn opts)))) = MaxAttempts opts
        \<and> (\<forall>ev \<in> set (concat (map (\<lambda>k. events_of_attempt opts (int k + 1)
                                          (error_of_call sleep fn opts ctx k))
                                  [0..<nat (MaxAttempts opts) - 1])).
              attempt_of ev < MaxAttempts opts)"
proof -
  let ?n = "MaxAttempts opts"
  let ?E = "error_of_call sleep fn opts ctx (nat ?n - 1)"
  let ?T = "concat (map (\<lambda>k. events_of_attempt opts (int k + 1) (error_of_call sleep fn opts ctx k))
                     [0..<nat ?n - 1])"
  have f: "\<exists>v e w'. fn w = ((v, Some e), w') \<and> ctx_Err w' = None \<and> shouldRetryError opts (Some e)
          \<and> (\<forall>a. ShouldRetry (Strategy opts) a (Some e))" if "ctx_Err w = None" for w
    using fails [OF that] by (metis builtin_ShouldRetry)
  from assms(1) have one: "1 \<le> ?n" and one': "int 0 + 1 \<le> ?n" by simp_all
  from do_loop_run [where fn = fn and opts = opts and sleep = sleep and zero = zero and ctx = ctx
      and lastErr = None and tr = "[]" and j = 0, OF assms(2) f callback waits one']
  have run: "do_loop zero sleep fn opts 1 None ctx [] =
      ((zero, Some (RetryError ?E ?n)), ?T @ [Invoked ?n ?E])" by simp
  with assms(1) have d: "Do zero sleep ctx fn opts =
      ((zero, Some (RetryError ?E ?n)), ?T @ [Invoked ?n ?E])" by (simp add: Do_def)
  from do_loop_exhausts [where fn = fn and opts = opts and sleep = sleep and zero = zero
      and lastErr = None and tr = "[]" and k = 1 and w = ctx, OF f callback waits one assms(2)]
  obtain e tr where
    r: "do_loop zero sleep fn opts 1 None ctx [] =
         ((zero, Some (RetryError (Some e) ?n)), [] @ tr @ [Invoked ?n (Some e)])"
    and i: "invocations (tr @ [Invoked ?n (Some e)]) = [1..?n]"
    and b: "\<forall>ev \<in> set tr. attempt_of ev < ?n" by blast
  from run r have E: "?E = Some e" and T: "?T = tr" by simp_all
  from d have sd: "snd (Do zero sleep ctx fn opts) = ?T @ [Invoked ?n ?E]" by simp
  from i E T have i': "invocations (?T @ [Invoked ?n ?E]) = [1..?n]" by simp
  then have "length (invocations (?T @ [Invoked ?n ?E])) = nat ?n" by simp
  with assms(1) have l: "int (length (invocations (?T @ [Invoked ?n ?E]))) = ?n" by simp
  from b T have b': "\<forall>ev \<in> set ?T. attempt_of ev < ?n" by simp
  from d E i' l b' show ?thesis unfolding sd by blast
qed

theorem Do_exhausts_MaxAttempts_witness:
  "0 < MaxAttempts counting_options
   \<and> ctx_Err counting = None
   \<and> Do 0 timer_sleep counting counts_and_fails counting_options =
       ((0, Some (RetryError (Some (New ''xxx'')) 3)),
        [Invoked 1 (Some (New ''x'')), Retried 1 (Some (New ''x'')), Waited 1 10000000,
         Invoked 2 (Some (New ''xx'')), Retried 2 (Some (New ''xx'')), Waited 2 10000000,
         Invoked 3 (Some (New ''xxx''))])
   \<and> error_of_call timer_sleep counts_and_fails counting_options counting 2 = Some (New ''xxx'')
   \<and> attempts (snd (counts_and_fails (world_before timer_sleep counts_and_fails counting_options counting 2))) = 3
   \<and> invocations (snd (Do 0 timer_sleep counting counts_and_fails counting_options)) = [1, 2, 3]
   \<and> length (invocations (snd (Do 0 timer_sleep counting counts_and_fails counting_options))) = 3
   \<and> list_all (\<lambda>ev. attempt_of ev < MaxAttempts counting_options)
        [Invoked 1 (Some (New ''x'')), Retried 1 (Some (New ''x'')), Waited 1 10000000,
         Invoked 2 (Some (New ''xx'')), Retried 2 (Some (New ''xx'')), Waited 2 10000000]"
proof -
  have m: "0 < MaxAttempts counting_options" by (simp add: counting_options_def)
  have c: "ctx_Err counting = None" by (simp add: counting_def)
  have f: "\<exists>v e w'. counts_and_fails w = ((v, Some e), w') \<and> ctx_Err w' = None
          \<and> \<not> IsPermanentError (Some e) \<and> shouldRetryError counting_options (Some e)
          \<and> (builtin (Strategy counting_options)
              \<or> (\<forall>a. ShouldRetry (Strategy counting_options) a (Some e)))"
    if "ctx_Err w = None" for w
    using that
    by (simp add: counts_and_fails_def counting_options_def shouldRetryError_def
        IsPermanentError_def errors_Is_def Let_def)
  have r: "ctx_Err (callOnRetry counting_options a e w) = None" if "ctx_Err w = None" for a e w
    using that by (simp add: callOnRetry_def counting_options_def quiet_callback_def)
  have s: "ctx_Err (snd (timer_sleep d w)) = None" if "ctx_Err w = None" for d and w :: Counting
    using that by (simp add: timer_sleep_def)
  have n: "MaxAttempts counting_options = 3" by (simp add: counting_options_def)
  have w: "world_before timer_sleep counts_and_fails counting_options counting k =
      \<lparr>ctx_Err = None, attempts = k\<rparr>" for k
    by (induction k)
      (simp_all add: counts_and_fails_def counting_def counting_options_def callOnRetry_def
        quiet_callback_def timer_sleep_def Let_def)
  have e0: "error_of_call timer_sleep counts_and_fails counting_options counting 0 = Some (New ''x'')"
    by (simp add: error_of_call_def w counts_and_fails_def Let_def del: world_before.simps)
  have e1: "error_of_call timer_sleep counts_and_fails counting_options counting (Suc 0) = Some (New ''xx'')"
    by (simp add: error_of_call_def w counts_and_fails_def Let_def numeral_2_eq_2
        del: world_before.simps)
  have e2: "error_of_call timer_sleep counts_and_fails counting_options counting 2 = Some (New ''xxx'')"
    by (simp add: error_of_call_def w counts_and_fails_def Let_def numeral_3_eq_3
        del: world_before.simps)
  have a3: "attempts (snd (counts_and_fails (world_before timer_sleep counts_and_fails counting_options counting 2))) = 3"
    by (simp add: w counts_and_fails_def Let_def del: world_before.simps)
  have u: "[0..<2::nat] = [0, Suc 0]" by (simp add: upt_rec numeral_2_eq_2)
  have o: "OnRetry counting_options = Some quiet_callback"
    "Strategy counting_options = ConstantDelay 10000000" by (simp_all add: counting_options_def)
  note t = Do_exhausts_MaxAttempts [where opts = counting_options and ctx = counting and fn = counts_and_fails
      and sleep = timer_sleep and zero = 0, OF m c f r s]
  from t [THEN conjunct1]
  have d: "Do 0 timer_sleep counting counts_and_fails counting_options =
       ((0, Some (RetryError (Some (New ''xxx'')) 3)),
        [Invoked 1 (Some (New ''x'')), Retried 1 (Some (New ''x'')), Waited 1 10000000,
         Invoked 2 (Some (New ''xx'')), Retried 2 (Some (New ''xx'')), Waited 2 10000000,
         Invoked 3 (Some (New ''xxx''))])"
    by (simp add: n o u e0 e1 e2 events_of_attempt_def onRetryEvents_def calculateDelay_def)
  from t [THEN conjunct2, THEN conjunct2, THEN conjunct1]
  have i: "invocations (snd (Do 0 timer_sleep counting counts_and_fails counting_options)) = [1, 2, 3]"
    unfolding n by (simp add: upto_rec1)
  then have l: "length (invocations (snd (Do 0 timer_sleep counting counts_and_fails counting_options))) = 3"
    by simp
  from t [THEN conjunct2, THEN conjunct2, THEN conjunct2, THEN conjunct2]
  have b: "list_all (\<lambda>ev. attempt_of ev < MaxAttempts counting_options)
        [Invoked 1 (Some (New ''x'')), Retried 1 (Some (New ''x'')), Waited 1 10000000,
         Invoked 2 (Some (New ''xx'')), Retried 2 (Some (New ''xx'')), Waited 2 10000000]"
    by (simp add: n o u e0 e1 events_of_attempt_def onRetryEvents_def calculateDelay_def)
  from m c d e2 a3 i l b show ?thesis by simp
qed

section \<open>The joins\<close>

lemma All_join_started:
  "tasks \<noteq> [] \<Longrightarrow> ctx_Err ctx = None \<Longrightarrow>
   All_join zero ctx views tasks =
     (Some (map (\<lambda>idx. All_go zero (tasks ! idx) (views idx)) [0..<length tasks]), None)"
  by (simp add: All_join_def)

lemma All_go_ran:
  "ctx_Err view = None \<Longrightarrow> All_go zero task view = \<lparr>Value = fst (task view), Err = snd (task view)\<rparr>"
  by (simp add: All_go_def split: prod.splits)

lemma All_go_skipped:
  "ctx_Err view = Some ce \<Longrightarrow> All_go zero task view = \<lparr>Value = zero, Err = Some ce\<rparr>"
  by (simp add: All_go_def)

text \<open>
  Claim C3. For a non-empty sequence of tasks started under a scope that is not
  cancelled, the settle-style \<open>All\<close> returns no error of its own and a slice with one
  \<open>Result\<close> per task, the result of task \<open>i\<close> at index \<open>i\<close>. When every task is invoked and
  returns without error, entry \<open>i\<close> has a nil \<open>Err\<close> and the value task \<open>i\<close> returned.
\<close>

theorem All_settles_every_task:
  "tasks \<noteq> [] \<and> ctx_Err ctx = None \<longrightarrow>
     (\<exists>rs. All_join zero ctx views tasks = (Some rs, None)
        \<and> length rs = length tasks
        \<and> (\<forall>i<length tasks. rs ! i = All_go zero (tasks ! i) (views i))
        \<and> ((\<forall>i<length tasks. ctx_Err (views i) = None \<and> snd ((tasks ! i) (views i)) = None) \<longrightarrow>
            (\<forall>i<length tasks. rs ! i = \<lparr>Value = fst ((tasks ! i) (views i)), Err = None\<rparr>)))"
proof (intro impI)
  assume a: "tasks \<noteq> [] \<and> ctx_Err ctx = None"
  let ?rs = "map (\<lambda>idx. All_go zero (tasks ! idx) (views idx)) [0..<length tasks]"
  from a have "All_join zero ctx views tasks = (Some ?rs, None)"
    by (simp add: All_join_started)
  moreover have "length ?rs = length tasks" by simp
  moreover have e: "\<forall>i<length tasks. ?rs ! i = All_go zero (tasks ! i) (views i)" by simp
  moreover have "\<forall>i<length tasks. ?rs ! i = \<lparr>Value = fst ((tasks ! i) (views i)), Err = None\<rparr>"
    if "\<forall>i<length tasks. ctx_Err (views i) = None \<and> snd ((tasks ! i) (views i)) = None"
    using that by (simp add: All_go_ran)
  ultimately show "\<exists>rs. All_join zero ctx views tasks = (Some rs, None)
        \<and> length rs = length tasks
        \<and> (\<forall>i<length tasks. rs ! i = All_go zero (tasks ! i) (views i))
        \<and> ((\<forall>i<length tasks. ctx_Err (views i) = None \<and> snd ((tasks ! i) (views i)) = None) \<longrightarrow>
            (\<forall>i<length tasks. rs ! i = \<lparr>Value = fst ((tasks ! i) (views i)), Err = None\<rparr>))"
    by blast
qed

theorem All_settles_every_task_witness:
  "[succeeds 1, succeeds (2::int)] \<noteq> []
   \<and> ctx_Err background = None
   \<and> (\<exists>rs. All_join (0::int) background undisturbed [succeeds 1, succeeds 2] = (Some rs, None)
        \<and> length rs = 2
        \<and> rs ! 0 = \<lparr>Value = 1::int, Err = None\<rparr>
        \<and> rs ! 1 = \<lparr>Value = 2::int, Err = None\<rparr>)"
proof -
  let ?tasks = "[succeeds 1, succeeds (2::int)]"
  have h: "?tasks \<noteq> [] \<and> ctx_Err background = None" by (simp add: background_def)
  with All_settles_every_task [where tasks = ?tasks and ctx = background and views = undisturbed and zero = "0::int"]
  obtain rs where r: "All_join (0::int) background undisturbed ?tasks = (Some rs, None)"
    and l: "length rs = length ?tasks"
    and ok: "(\<forall>i<length ?tasks. ctx_Err (undisturbed i) = None
                \<and> snd ((?tasks ! i) (undisturbed i)) = None) \<longrightarrow>
             (\<forall>i<length ?tasks. rs ! i = \<lparr>Value = fst ((?tasks ! i) (undisturbed i)), Err = None\<rparr>)"
    by blast
  have "\<forall>i<length ?tasks. ctx_Err (undisturbed i) = None \<and> snd ((?tasks ! i) (undisturbed i)) = None"
    by (simp add: undisturbed_def background_def succeeds_def nth_Cons')
  with ok have a: "\<forall>i<length ?tasks. rs ! i = \<lparr>Value = fst ((?tasks ! i) (undisturbed i)), Err = None\<rparr>"
    by blast
  from a have "rs ! 0 = \<lparr>Value = 1::int, Err = None\<rparr>" by (simp add: succeeds_def)
  moreover from a have "rs ! 1 = \<lparr>Value = 2::int, Err = None\<rparr>" by (simp add: succeeds_def)
  ultimately show ?thesis using h r l by simp
qed

text \<open>
  Claim C5. The settle-style \<open>All\<close> returns an error of its own in two cases and in no
  other: for the empty sequence it returns \<open>ErrNoTasks\<close> and the nil slice; for a
  non-empty sequence under a scope that is cancelled already it returns the scope's
  error and the nil slice. In every other case the error is nil and a slice is returned.
\<close>

theorem All_function_level_errors:
  "(snd (All_join zero ctx views tasks) \<noteq> None) = (tasks = [] \<or> ctx_Err ctx \<noteq> None)
   \<and> (tasks = [] \<longrightarrow> All_join zero ctx views tasks = (None, Some ErrNoTasks))
   \<and> (tasks \<noteq> [] \<and> ctx_Err ctx = Some ce \<longrightarrow> All_join zero ctx views tasks = (None, Some ce))
   \<and> (tasks \<noteq> [] \<and> ctx_Err ctx = None \<longrightarrow> (\<exists>rs. All_join zero ctx views tasks = (Some rs, None)))"
  by (auto simp: All_join_def split: option.splits)

theorem All_function_level_errors_witness:
  "All_join (0::int) background undisturbed [] = (None, Some ErrNoTasks)
   \<and> snd (All_join (0::int) background undisturbed []) \<noteq> None
   \<and> [succeeds (1::int)] \<noteq> []
   \<and> ctx_Err cancelled = Some Canceled
   \<and> All_join (0::int) cancelled undisturbed [succeeds 1] = (None, Some Canceled)
   \<and> ctx_Err background = None
   \<and> snd (All_join (0::int) background undisturbed [fails 0 ''task failed'', succeeds 2]) = None
   \<and> (\<exists>rs. All_join (0::int) background undisturbed [fails 0 ''task failed'', succeeds 2] = (Some rs, None))"
  using All_function_level_errors [where tasks = "[]" and ctx = background and views = undisturbed and zero = "0::int"]
    All_function_level_errors [where tasks = "[succeeds 1]" and ctx = cancelled and views = undisturbed and zero = "0::int"
      and ce = Canceled]
    All_function_level_errors [where tasks = "[fails 0 ''task failed'', succeeds 2]" and ctx = background
      and views = undisturbed and zero = "0::int"]
  by (simp add: background_def cancelled_def)

text \<open>
  The tasks of the test "multiple task errors" return a value together with their error,
  and the \<open>Result\<close> keeps both: \<open>Err\<close> is not nil and \<open>Value\<close> is 10, not zero.
\<close>

theorem Result_keeps_value_of_failed_task:
  "All_join (0::int) background undisturbed [fails 10 ''error 1'', fails 20 ''error 2'', succeeds 30] =
     (Some [\<lparr>Value = 10::int, Err = Some (New ''error 1'')\<rparr>,
            \<lparr>Value = 20, Err = Some (New ''error 2'')\<rparr>,
            \<lparr>Value = 30, Err = None\<rparr>], None)
   \<and> Err \<lparr>Value = 10::int, Err = Some (New ''error 1'')\<rparr> \<noteq> None
   \<and> Value \<lparr>Value = 10::int, Err = Some (New ''error 1'')\<rparr> \<noteq> 0"
  by (simp add: All_join_def All_go_def background_def undisturbed_def fails_def succeeds_def upt_rec)

text \<open>
  Claim C2 (amended). Every \<open>Result\<close> that \<open>All\<close> or \<open>AllSettled\<close> produces is one of two:
  when the goroutine found the scope cancelled before it invoked the task, \<open>Err\<close> is the
  scope's error and \<open>Value\<close> is the zero value; otherwise \<open>Value\<close> and \<open>Err\<close> are the pair
  the task returned, so a value returned together with an error is kept.
\<close>

theorem Result_of_settled_task:
  "(All_join zero ctx views tasks = (Some rs, None) \<and> i < length rs \<longrightarrow>
      (case ctx_Err (views i) of
         Some ce \<Rightarrow> rs ! i = \<lparr>Value = zero, Err = Some ce\<rparr>
       | None \<Rightarrow> rs ! i = \<lparr>Value = fst ((tasks ! i) (views i)), Err = snd ((tasks ! i) (views i))\<rparr>))
   \<and> (i < length (AllSettled zero views tasks) \<longrightarrow>
      (case ctx_Err (views i) of
         Some ce \<Rightarrow> AllSettled zero views tasks ! i = \<lparr>Value = zero, Err = Some ce\<rparr>
       | None \<Rightarrow> AllSettled zero views tasks ! i =
           \<lparr>Value = fst ((tasks ! i) (views i)), Err = snd ((tasks ! i) (views i))\<rparr>))"
proof (intro conjI impI)
  assume a: "All_join zero ctx views tasks = (Some rs, None) \<and> i < length rs"
  then have rs: "rs = map (\<lambda>idx. All_go zero (tasks ! idx) (views idx)) [0..<length tasks]"
    by (auto simp: All_join_def split: if_splits option.splits)
  with a have "i < length tasks" by simp
  with rs have "rs ! i = All_go zero (tasks ! i) (views i)" by simp
  then show "case ctx_Err (views i) of
         Some ce \<Rightarrow> rs ! i = \<lparr>Value = zero, Err = Some ce\<rparr>
       | None \<Rightarrow> rs ! i = \<lparr>Value = fst ((tasks ! i) (views i)), Err = snd ((tasks ! i) (views i))\<rparr>"
    by (simp add: All_go_ran All_go_skipped split: option.splits)
next
  assume a: "i < length (AllSettled zero views tasks)"
  then have "i < length tasks" by (simp add: AllSettled_def split: if_splits)
  then have "AllSettled zero views tasks ! i = All_go zero (tasks ! i) (views i)"
    by (auto simp: AllSettled_def)
  then show "case ctx_Err (views i) of
         Some ce \<Rightarrow> AllSettled zero views tasks ! i = \<lparr>Value = zero, Err = Some ce\<rparr>
       | None \<Rightarrow> AllSettled zero views tasks ! i =
           \<lparr>Value = fst ((tasks ! i) (views i)), Err = snd ((tasks ! i) (views i))\<rparr>"
    by (simp add: All_go_ran All_go_skipped split: option.splits)
qed

theorem Result_of_settled_task_witness:
  "All_join (0::int) background (undisturbed (1 := cancelled)) [fails 10 ''error 1'', succeeds 20] =
     (Some [\<lparr>Value = 10::int, Err = Some (New ''error 1'')\<rparr>, \<lparr>Value = 0::int, Err = Some Canceled\<rparr>], None)
   \<and> AllSettled (0::int) (undisturbed (1 := cancelled)) [fails 10 ''error 1'', succeeds 20] =
     [\<lparr>Value = 10::int, Err = Some (New ''error 1'')\<rparr>, \<lparr>Value = 0::int, Err = Some Canceled\<rparr>]
   \<and> [\<lparr>Value = 10::int, Err = Some (New ''error 1'')\<rparr>, \<lparr>Value = 0::int, Err = Some Canceled\<rparr>] ! 0
       = \<lparr>Value = 10::int, Err = Some (New ''error 1'')\<rparr>
   \<and> [\<lparr>Value = 10::int, Err = Some (New ''error 1'')\<rparr>, \<lparr>Value = 0::int, Err = Some Canceled\<rparr>] ! 1
       = \<lparr>Value = 0::int, Err = Some Canceled\<rparr>"
proof -
  let ?views = "undisturbed (1 := cancelled)"
  let ?tasks = "[fails 10 ''error 1'', succeeds (20::int)]"
  let ?rs = "[\<lparr>Value = 10::int, Err = Some (New ''error 1'')\<rparr>, \<lparr>Value = 0::int, Err = Some Canceled\<rparr>]"
  have a: "All_join (0::int) background ?views ?tasks = (Some ?rs, None)"
    by (simp add: All_join_def All_go_def background_def cancelled_def undisturbed_def fails_def
        succeeds_def upt_rec)
  have s: "AllSettled (0::int) ?views ?tasks = ?rs"
    by (simp add: AllSettled_def All_go_def background_def cancelled_def undisturbed_def fails_def
        succeeds_def upt_rec)
  from Result_of_settled_task [where zero = "0::int" and ctx = background and views = ?views and tasks = ?tasks
      and rs = ?rs and i = 0] a s
  have "?rs ! 0 = \<lparr>Value = 10::int, Err = Some (New ''error 1'')\<rparr>"
    by (simp add: background_def undisturbed_def fails_def)
  moreover from Result_of_settled_task [where zero = "0::int" and ctx = background and views = ?views and tasks = ?tasks
      and rs = ?rs and i = 1] a s
  have "?rs ! 1 = \<lparr>Value = 0::int, Err = Some Canceled\<rparr>"
    by (simp add: cancelled_def)
  ultimately show ?thesis using a s by simp
qed

lemma Any_recv_all_fail:
  "\<forall>r \<in> set ch. snd r \<noteq> None \<Longrightarrow>
   Any_recv zero ch errors = (zero, Some (AggregateError (errors @ map snd ch)))"
  by (induction zero ch errors rule: Any_recv.induct) simp_all

lemma Any_recv_result:
  "snd (Any_recv zero ch errors) = None \<or>
   Any_recv zero ch errors = (zero, Some (AggregateError (errors @ map snd ch)))"
  by (induction zero ch errors rule: Any_recv.induct) simp_all

lemma order_length: "distinct order \<Longrightarrow> set order = {..<n} \<Longrightarrow> length order = n"
  using distinct_card by fastforce

lemma Any_all_fail:
  assumes t: "tasks \<noteq> []" and d: "distinct order" and so: "set order = {..<length tasks}"
    and f: "\<forall>idx<length tasks. snd (Any_go zero (tasks ! idx) (views idx)) \<noteq> None"
  shows "Any zero views order tasks =
        (zero, Some (AggregateError (map (\<lambda>idx. snd (Any_go zero (tasks ! idx) (views idx))) order)))"
proof -
  let ?ch = "map (\<lambda>idx. Any_go zero (tasks ! idx) (views idx)) order"
  have "snd r \<noteq> None" if "r \<in> set ?ch" for r
  proof -
    from that obtain idx where i: "idx \<in> set order" and r: "r = Any_go zero (tasks ! idx) (views idx)"
      by auto
    from i so have "idx < length tasks" by simp
    with f r show ?thesis by simp
  qed
  then have "\<forall>r \<in> set ?ch. snd r \<noteq> None" by blast
  then have "Any_recv zero ?ch [] = (zero, Some (AggregateError ([] @ map snd ?ch)))"
    by (rule Any_recv_all_fail)
  moreover have "Any zero views order tasks = Any_recv zero ?ch []"
    using t by (simp add: Any_def)
  moreover have "[] @ map snd ?ch = map (\<lambda>idx. snd (Any_go zero (tasks ! idx) (views idx))) order"
    by simp
  ultimately show ?thesis by simp
qed

lemma Any_aggregate_nonempty:
  assumes d: "distinct order" and so: "set order = {..<length tasks}"
    and r: "Any zero views order tasks = (v, Some (AggregateError es))"
  shows "es \<noteq> []"
proof -
  let ?ch = "map (\<lambda>idx. Any_go zero (tasks ! idx) (views idx)) order"
  have t: "tasks \<noteq> []"
  proof
    assume "tasks = []"
    with r show False by (simp add: Any_def)
  qed
  from d so have "length order = length tasks" by (rule order_length)
  with t have o: "order \<noteq> []" by auto
  from r t have "Any_recv zero ?ch [] = (v, Some (AggregateError es))" by (simp add: Any_def)
  with Any_recv_result [of zero ?ch "[]"] have "es = map snd ?ch" by simp
  with o show "es \<noteq> []" by simp
qed

lemma All_strict_no_tasks: "All_strict zero views [] = ([], None)"
  by (simp add: All_strict_def)

lemma All_strict_aggregate_nonempty:
  "All_strict zero views tasks = (vs, Some (AggregateError es)) \<Longrightarrow> es \<noteq> []"
  by (auto simp: All_strict_def Let_def split: if_splits)

text \<open>
  Claim C6. For a non-empty sequence in which every task fails (its goroutine sends an
  error: the task's, or the scope's when it was cancelled first), \<open>Any\<close> returns the zero
  value and an \<open>AggregateError\<close> that holds the errors in the order the results arrived,
  one per task. For the empty sequence \<open>Any\<close> returns \<open>ErrNoTasks\<close>. So an
  \<open>AggregateError\<close> that \<open>Any\<close> returns is never empty, and neither is one returned by the
  strict \<open>All\<close> (the first definition in await.go).
\<close>

theorem Any_all_fail_AggregateError:
  "(tasks \<noteq> [] \<and> distinct order \<and> set order = {..<length tasks}
      \<and> (\<forall>idx<length tasks. snd (Any_go zero (tasks ! idx) (views idx)) \<noteq> None) \<longrightarrow>
      Any zero views order tasks =
        (zero, Some (AggregateError (map (\<lambda>idx. snd (Any_go zero (tasks ! idx) (views idx))) order)))
      \<and> length (map (\<lambda>idx. snd (Any_go zero (tasks ! idx) (views idx))) order) = length tasks)
   \<and> Any zero views order [] = (zero, Some ErrNoTasks)
   \<and> (distinct order \<and> set order = {..<length tasks}
      \<and> Any zero views order tasks = (v, Some (AggregateError es)) \<longrightarrow> es \<noteq> [])
   \<and> (All_strict zero views tasks = (vs, Some (AggregateError es')) \<longrightarrow> es' \<noteq> [])"
proof (intro conjI impI)
  assume a: "tasks \<noteq> [] \<and> distinct order \<and> set order = {..<length tasks}
      \<and> (\<forall>idx<length tasks. snd (Any_go zero (tasks ! idx) (views idx)) \<noteq> None)"
  then show "Any zero views order tasks =
        (zero, Some (AggregateError (map (\<lambda>idx. snd (Any_go zero (tasks ! idx) (views idx))) order)))"
    by (intro Any_all_fail) blast+
  from a have "length order = length tasks" by (intro order_length) blast+
  then show "length (map (\<lambda>idx. snd (Any_go zero (tasks ! idx) (views idx))) order) = length tasks"
    by simp
next
  show "Any zero views order [] = (zero, Some ErrNoTasks)" by (simp add: Any_def)
next
  assume a: "distinct order \<and> set order = {..<length tasks}
      \<and> Any zero views order tasks = (v, Some (AggregateError es))"
  then show "es \<noteq> []"
    by (intro Any_aggregate_nonempty [where order = order and tasks = tasks and zero = zero
          and views = views and v = v]) blast+
next
  assume "All_strict zero views tasks = (vs, Some (AggregateError es'))"
  then show "es' \<noteq> []" by (rule All_strict_aggregate_nonempty)
qed

theorem Any_all_fail_AggregateError_witness:
  "[fails 0 ''a'', fails (0::int) ''b''] \<noteq> []
   \<and> distinct [1, 0::nat]
   \<and> set [1, 0::nat] = {..<length [fails 0 ''a'', fails (0::int) ''b'']}
   \<and> Any (0::int) undisturbed [1, 0] [fails 0 ''a'', fails 0 ''b''] =
       (0::int, Some (AggregateError [Some (New ''b''), Some (New ''a'')]))
   \<and> length [Some (New ''b''), Some (New ''a'')] = length [fails 0 ''a'', fails (0::int) ''b'']
   \<and> Any (0::int) undisturbed [1, 0] [] = (0, Some ErrNoTasks)
   \<and> [Some (New ''b''), Some (New ''a'')] \<noteq> []
   \<and> All_strict (0::int) undisturbed [fails 0 ''task failed'', succeeds 2] =
       ([0, 2], Some (AggregateError [Some (New ''task failed'')]))
   \<and> [Some (New ''task failed'')] \<noteq> []"
proof -
  let ?tasks = "[fails 0 ''a'', fails (0::int) ''b'']"
  have h1: "?tasks \<noteq> []" by simp
  have h2: "distinct [1, 0::nat]" by simp
  have h3: "set [1, 0::nat] = {..<length ?tasks}" by auto
  have h4: "\<forall>idx<length ?tasks. snd (Any_go (0::int) (?tasks ! idx) (undisturbed idx)) \<noteq> None"
    by (simp add: Any_go_def undisturbed_def background_def fails_def nth_Cons')
  have m: "map (\<lambda>idx. snd (Any_go (0::int) (?tasks ! idx) (undisturbed idx))) [1, 0] =
      [Some (New ''b''), Some (New ''a'')]"
    by (simp add: Any_go_def undisturbed_def background_def fails_def)
  from Any_all_fail_AggregateError [where tasks = ?tasks and order = "[1, 0]" and zero = "0::int" and views = undisturbed
      and v = "0::int" and es = "[Some (New ''b''), Some (New ''a'')]"] h1 h2 h3 h4
  have "Any (0::int) undisturbed [1, 0] ?tasks =
        (0::int, Some (AggregateError (map (\<lambda>idx. snd (Any_go (0::int) (?tasks ! idx) (undisturbed idx))) [1, 0])))
      \<and> Any (0::int) undisturbed [1, 0] [] = (0, Some ErrNoTasks)
      \<and> (Any (0::int) undisturbed [1, 0] ?tasks = (0::int, Some (AggregateError [Some (New ''b''), Some (New ''a'')]))
          \<longrightarrow> [Some (New ''b''), Some (New ''a'')] \<noteq> [])"
    by blast
  moreover have st: "All_strict (0::int) undisturbed [fails 0 ''task failed'', succeeds 2] =
       ([0, 2], Some (AggregateError [Some (New ''task failed'')]))"
    by (simp add: All_strict_def All_strict_go_def undisturbed_def background_def fails_def
        succeeds_def upt_rec)
  moreover from Any_all_fail_AggregateError [where tasks = "[fails 0 ''task failed'', succeeds 2]"
      and zero = "0::int" and views = undisturbed and vs = "[0, 2]"
      and es' = "[Some (New ''task failed'')]"] st
  have "[Some (New ''task failed'')] \<noteq> []" by blast
  ultimately show ?thesis using m h1 h2 h3 by simp
qed

end
